theory Spec2Isabelle
  imports Complex_Main "HOL-Library.AList"
begin

section \<open>JavaScript values\<close>

text \<open>
  The dashboards render what \<open>r.json()\<close> returns, so the payload is any JSON value.
  Strings are kept as their UTF-8 bytes. \<open>JNum n\<close> is a number that the parser reads
  as the finite value \<open>n\<close>. The pairs of \<open>JObj\<close> are the own properties of the object.
  A property read that finds nothing yields \<open>undefined\<close>, which is \<open>None\<close> here.
\<close>

datatype json =
    JNull
  | JBool bool
  | JNum rat
  | JStr string
  | JArr "json list"
  | JObj "(string \<times> json) list"

type_synonym jsval = "json option"

datatype js_error =
    TypeError
  | SyntaxError
  | NetworkError
  | Error string

fun truthy :: "json \<Rightarrow> bool" where
  "truthy JNull = False"
| "truthy (JBool b) = b"
| "truthy (JNum n) = (n \<noteq> 0)"
| "truthy (JStr s) = (s \<noteq> [])"
| "truthy (JArr xs) = True"
| "truthy (JObj kvs) = True"

text \<open>
  The \<open>length\<close> of a string counts UTF-16 code units: one for every byte that starts a
  character, and one more for a character of four bytes.
\<close>

definition js_length :: "string \<Rightarrow> nat" where
  "js_length s =
     length (filter (\<lambda>c. \<not> (0x80 \<le> (of_char c :: nat) \<and> (of_char c :: nat) < 0xC0)) s)
     + length (filter (\<lambda>c. 0xF0 \<le> (of_char c :: nat)) s)"

text \<open>
  \<open>js_get v k\<close> is the read \<open>v.k\<close> on a value that is not \<open>null\<close>, for the property
  names this program reads (none of them is inherited from a prototype, apart from
  \<open>length\<close> on arrays and strings).
\<close>

fun js_get :: "json \<Rightarrow> string \<Rightarrow> jsval" where
  "js_get (JObj kvs) k = map_of kvs k"
| "js_get (JArr xs) k = (if k = ''length'' then Some (JNum (of_nat (length xs))) else None)"
| "js_get (JStr s) k = (if k = ''length'' then Some (JNum (of_nat (js_length s))) else None)"
| "js_get v k = None"

text \<open>\<open>v || 0\<close>\<close>

definition or_zero :: "jsval \<Rightarrow> json" where
  "or_zero v = (case v of None \<Rightarrow> JNum 0 | Some j \<Rightarrow> if truthy j then j else JNum 0)"

text \<open>
  Conversions to a primitive (template interpolation, \<open>+\<close>, \<open>>\<close>, \<open>Math.abs\<close>) call
  \<open>valueOf\<close> and \<open>toString\<close>. On a parsed object both come from the prototype unless
  an own property of that name hides them; an own \<open>toString\<close>, never callable, makes
  the conversion throw a TypeError. An array joins the conversions of its elements.
\<close>

fun to_primitive_ok :: "json \<Rightarrow> bool" where
  "to_primitive_ok (JObj kvs) = (map_of kvs ''toString'' = None)"
| "to_primitive_ok (JArr xs) = (\<forall>x\<in>set xs. to_primitive_ok x)"
| "to_primitive_ok v = True"

text \<open>\<open>v.toLocaleString()\<close> on a value that is not \<open>null\<close>: does the call return?\<close>

fun to_locale_ok :: "json \<Rightarrow> bool" where
  "to_locale_ok (JObj kvs) =
     (map_of kvs ''toLocaleString'' = None \<and> map_of kvs ''toString'' = None)"
| "to_locale_ok (JArr xs) = (\<forall>x\<in>set xs. to_locale_ok x)"
| "to_locale_ok v = True"

text \<open>Interpolation \<open>${v}\<close> of a value that may be \<open>undefined\<close>.\<close>

definition interpolates :: "jsval \<Rightarrow> bool" where
  "interpolates v = (case v of None \<Rightarrow> True | Some j \<Rightarrow> to_primitive_ok j)"

text \<open>
  \<open>to_number\<close> is the conversion to a number of a value whose conversion to a primitive
  succeeded; \<open>None\<close> is \<open>NaN\<close>. What the engine makes of the text of a string or of a
  joined array is the parameter \<open>tn\<close>.
\<close>

definition to_number :: "(json \<Rightarrow> rat option) \<Rightarrow> jsval \<Rightarrow> rat option" where
  "to_number tn v =
     (case v of
        None \<Rightarrow> None
      | Some JNull \<Rightarrow> Some 0
      | Some (JBool b) \<Rightarrow> Some (if b then 1 else 0)
      | Some (JNum n) \<Rightarrow> Some n
      | Some (JObj kvs) \<Rightarrow> None
      | Some j \<Rightarrow> tn j)"

text \<open>\<open>Array.prototype.map\<close> with a callback that may throw.\<close>

fun map_rows :: "('a \<Rightarrow> js_error + 'b) \<Rightarrow> 'a list \<Rightarrow> js_error + 'b list" where
  "map_rows f [] = Inr []"
| "map_rows f (x # xs) =
     (case f x of
        Inl e \<Rightarrow> Inl e
      | Inr y \<Rightarrow> (case map_rows f xs of Inl e \<Rightarrow> Inl e | Inr ys \<Rightarrow> Inr (y # ys)))"

section \<open>Render functions of the two dashboards\<close>

text \<open>
  A render function either replaces the markup of its panel or throws before doing so.
  The view records which markup was written: the empty-state placeholder, or the rows
  with the values that the template formats (\<open>toLocaleString\<close> output is left to the
  engine).
\<close>

datatype 'row view = Placeholder | Table "'row list"

text \<open>The guard \<open>!data || !data.data || data.data.length === 0\<close> of the list panels.\<close>

definition no_rows :: "json \<Rightarrow> bool" where
  "no_rows data =
     (\<not> truthy data \<or>
      (case js_get data ''data'' of
         None \<Rightarrow> True
       | Some d \<Rightarrow> \<not> truthy d \<or> js_get d ''length'' = Some (JNum 0)))"

subsection \<open>renderInteraction\<close>

text \<open>\<open>l.value > 10000\<close>\<close>

definition exceeds_10000 :: "(json \<Rightarrow> rat option) \<Rightarrow> json \<Rightarrow> bool" where
  "exceeds_10000 tn l =
     (case to_number tn (js_get l ''value'') of None \<Rightarrow> False | Some n \<Rightarrow> 10000 < n)"

datatype interaction_view =
    NoInteraction
  | InteractionSummary (node_count: jsval) (link_count: nat) (bigTrans: nat)

definition renderInteraction ::
  "(json \<Rightarrow> rat option) \<Rightarrow> json \<Rightarrow> js_error + interaction_view" where
  "renderInteraction tn data =
     (if \<not> truthy data then Inr NoInteraction
      else case js_get data ''nodes'' of
        None \<Rightarrow> Inr NoInteraction
      | Some nodes \<Rightarrow>
          if \<not> truthy nodes \<or> js_get nodes ''length'' = Some (JNum 0) then Inr NoInteraction
          else (case js_get data ''links'' of
                  Some (JArr links) \<Rightarrow>
                    if (\<forall>l\<in>set links. l \<noteq> JNull \<and> interpolates (js_get l ''value''))
                       \<and> interpolates (js_get nodes ''length'')
                    then Inr (InteractionSummary (js_get nodes ''length'') (length links)
                                (length (filter (exceeds_10000 tn) links)))
                    else Inl TypeError
                | _ \<Rightarrow> Inl TypeError))"

subsection \<open>renderStolen\<close>

datatype stolen_row = StolenRow jsval jsval json

definition stolen_tr :: "json \<Rightarrow> js_error + stolen_row" where
  "stolen_tr x =
     (if x = JNull then Inl TypeError
      else if interpolates (js_get x ''source'') \<and> interpolates (js_get x ''target'')
              \<and> to_locale_ok (or_zero (js_get x ''amount''))
      then Inr (StolenRow (js_get x ''source'') (js_get x ''target'')
                  (or_zero (js_get x ''amount'')))
      else Inl TypeError)"

definition renderStolen :: "json \<Rightarrow> js_error + stolen_row view" where
  "renderStolen data =
     (if no_rows data then Inr Placeholder
      else case js_get data ''data'' of
        Some (JArr xs) \<Rightarrow>
          (case map_rows stolen_tr (take 50 xs) of
             Inl e \<Rightarrow> Inl e
           | Inr rows \<Rightarrow> Inr (Table rows))
      | _ \<Rightarrow> Inl TypeError)"

subsection \<open>renderHidden\<close>

datatype hidden_item = HiddenItem nat jsval jsval json

definition hidden_item :: "nat \<times> json \<Rightarrow> js_error + hidden_item" where
  "hidden_item ix =
     (case ix of (i, x) \<Rightarrow>
        if x = JNull then Inl TypeError
        else if interpolates (js_get x ''counterparty_name'') \<and> interpolates (js_get x ''freq'')
                \<and> to_locale_ok (or_zero (js_get x ''total_amount''))
        then Inr (HiddenItem (i + 1) (js_get x ''counterparty_name'') (js_get x ''freq'')
                    (or_zero (js_get x ''total_amount'')))
        else Inl TypeError)"

definition renderHidden :: "json \<Rightarrow> js_error + hidden_item view" where
  "renderHidden data =
     (if no_rows data then Inr Placeholder
      else case js_get data ''data'' of
        Some (JArr xs) \<Rightarrow>
          (case map_rows hidden_item (zip [0..<length xs] xs) of
             Inl e \<Rightarrow> Inl e
           | Inr items \<Rightarrow> Inr (Table items))
      | _ \<Rightarrow> Inl TypeError)"

subsection \<open>renderTrend\<close>

text \<open>
  The two totals are sums in floating point; the view keeps the addends
  \<open>x.total_in || 0\<close> and \<open>x.total_out || 0\<close> in the order in which \<open>reduce\<close> adds them.
\<close>

datatype trend_view = NoTrend | TrendTotals "json list" "json list"

definition addend :: "string \<Rightarrow> json \<Rightarrow> js_error + json" where
  "addend k x =
     (if x = JNull then Inl TypeError
      else if to_primitive_ok (or_zero (js_get x k)) then Inr (or_zero (js_get x k))
      else Inl TypeError)"

definition renderTrend :: "json \<Rightarrow> js_error + trend_view" where
  "renderTrend data =
     (if no_rows data then Inr NoTrend
      else case js_get data ''data'' of
        Some (JArr xs) \<Rightarrow>
          (case map_rows (addend ''total_in'') xs of
             Inl e \<Rightarrow> Inl e
           | Inr ins \<Rightarrow>
               (case map_rows (addend ''total_out'') xs of
                  Inl e \<Rightarrow> Inl e
                | Inr outs \<Rightarrow> Inr (TrendTotals ins outs)))
      | _ \<Rightarrow> Inl TypeError)"

subsection \<open>renderStats\<close>

text \<open>A row holds the counterparty name and the value handed to \<open>Math.abs\<close>.\<close>

datatype stats_row = StatsRow jsval json

definition stats_tr :: "json \<Rightarrow> js_error + stats_row" where
  "stats_tr x =
     (if x = JNull then Inl TypeError
      else if interpolates (js_get x ''counterparty_name'')
              \<and> to_primitive_ok (or_zero (js_get x ''net_amount''))
      then Inr (StatsRow (js_get x ''counterparty_name'') (or_zero (js_get x ''net_amount'')))
      else Inl TypeError)"

definition renderStats :: "json \<Rightarrow> js_error + stats_row view" where
  "renderStats data =
     (if no_rows data then Inr Placeholder
      else case js_get data ''data'' of
        Some (JArr xs) \<Rightarrow>
          (case map_rows stats_tr (take 50 xs) of
             Inl e \<Rightarrow> Inl e
           | Inr rows \<Rightarrow> Inr (Table rows))
      | _ \<Rightarrow> Inl TypeError)"

subsection \<open>renderKeywords\<close>

datatype keyword_item = KeywordItem jsval json json

definition keyword_item :: "json \<Rightarrow> js_error + keyword_item" where
  "keyword_item x =
     (if x = JNull then Inl TypeError
      else if interpolates (js_get x ''counterparty_name'')
              \<and> to_primitive_ok (or_zero (js_get x ''in_amount''))
              \<and> to_primitive_ok (or_zero (js_get x ''out_amount''))
      then Inr (KeywordItem (js_get x ''counterparty_name'') (or_zero (js_get x ''in_amount''))
                  (or_zero (js_get x ''out_amount'')))
      else Inl TypeError)"

definition renderKeywords :: "json \<Rightarrow> js_error + keyword_item view" where
  "renderKeywords data =
     (if no_rows data then Inr Placeholder
      else case js_get data ''data'' of
        Some (JArr xs) \<Rightarrow>
          (case map_rows keyword_item xs of
             Inl e \<Rightarrow> Inl e
           | Inr items \<Rightarrow> Inr (Table items))
      | _ \<Rightarrow> Inl TypeError)"

section \<open>Strings\<close>

text \<open>
  White space and line terminators as \<open>trim\<close> and \<open>parseInt\<close> skip them, each as the
  bytes of its UTF-8 form: TAB, LF, VT, FF, CR, SP, U+00A0, U+1680, U+2000 to U+200A,
  U+2028, U+2029, U+202F, U+205F, U+3000 and U+FEFF.
\<close>

definition white_space :: "string list" where
  "white_space =
     [[CHR 0x09], [CHR 0x0A], [CHR 0x0B], [CHR 0x0C], [CHR 0x0D], [CHR 0x20],
      [CHR 0xC2, CHR 0xA0], [CHR 0xE1, CHR 0x9A, CHR 0x80],
      [CHR 0xE2, CHR 0x80, CHR 0x80], [CHR 0xE2, CHR 0x80, CHR 0x81],
      [CHR 0xE2, CHR 0x80, CHR 0x82], [CHR 0xE2, CHR 0x80, CHR 0x83],
      [CHR 0xE2, CHR 0x80, CHR 0x84], [CHR 0xE2, CHR 0x80, CHR 0x85],
      [CHR 0xE2, CHR 0x80, CHR 0x86], [CHR 0xE2, CHR 0x80, CHR 0x87],
      [CHR 0xE2, CHR 0x80, CHR 0x88], [CHR 0xE2, CHR 0x80, CHR 0x89],
      [CHR 0xE2, CHR 0x80, CHR 0x8A], [CHR 0xE2, CHR 0x80, CHR 0xA8],
      [CHR 0xE2, CHR 0x80, CHR 0xA9], [CHR 0xE2, CHR 0x80, CHR 0xAF],
      [CHR 0xE2, CHR 0x81, CHR 0x9F], [CHR 0xE3, CHR 0x80, CHR 0x80],
      [CHR 0xEF, CHR 0xBB, CHR 0xBF]]"

text \<open>Remove from the front of \<open>s\<close> every leading occurrence of one of the words \<open>ws\<close>.\<close>

function strip_leading :: "string list \<Rightarrow> string \<Rightarrow> string" where
  "strip_leading ws s =
     (case find (\<lambda>w. w \<noteq> [] \<and> take (length w) s = w) ws of
        None \<Rightarrow> s
      | Some w \<Rightarrow> strip_leading ws (drop (length w) s))"
  by pat_completeness auto
termination
proof (relation "measure (\<lambda>(ws, s). length s)")
  show "wf (measure (\<lambda>(ws, s). length s))" by simp
next
  fix ws :: "string list" and s w :: string
  assume "find (\<lambda>w. w \<noteq> [] \<and> take (length w) s = w) ws = Some w"
  then have w: "w \<noteq> []" and t: "take (length w) s = w"
    by (auto simp: find_Some_iff)
  from w t have "s \<noteq> []" by auto
  with w show "((ws, drop (length w) s), (ws, s)) \<in> measure (\<lambda>(ws, s). length s)"
    by simp
qed

definition trimStart :: "string \<Rightarrow> string" where
  "trimStart s = strip_leading white_space s"

definition trimEnd :: "string \<Rightarrow> string" where
  "trimEnd s = rev (strip_leading (map rev white_space) (rev s))"

definition trim :: "string \<Rightarrow> string" where
  "trim s = trimEnd (trimStart s)"

definition endsWith :: "string \<Rightarrow> string \<Rightarrow> bool" where
  "endsWith s t = (length t \<le> length s \<and> drop (length s - length t) s = t)"

text \<open>
  \<open>toLowerCase\<close> on the letters A to Z. The engine also lowers letters outside ASCII; none
  of them becomes \<open>.\<close>, \<open>t\<close> or \<open>x\<close>, so the test \<open>endsWith('.txt')\<close> of \<open>addFiles\<close>
  gives the same answer on both.
\<close>

definition toLowerCase :: "string \<Rightarrow> string" where
  "toLowerCase s =
     map (\<lambda>c. case map_of (zip ''ABCDEFGHIJKLMNOPQRSTUVWXYZ'' ''abcdefghijklmnopqrstuvwxyz'') c of
                None \<Rightarrow> c
              | Some l \<Rightarrow> l) s"

text \<open>
  \<open>parseInt(s, 10)\<close>: skip leading white space, read a sign, then the longest run of
  decimal digits; no digit gives \<open>NaN\<close>. The result is a Number, that is a double:
  \<open>Num i\<close> is the double whose value is the integer \<open>i\<close>.
\<close>

datatype js_number = NaN | Num int | Infinity | MinusInfinity

definition is_digit :: "char \<Rightarrow> bool" where
  "is_digit c = (0x30 \<le> (of_char c :: nat) \<and> (of_char c :: nat) \<le> 0x39)"

definition digits_value :: "string \<Rightarrow> nat" where
  "digits_value ds = foldl (\<lambda>a c. 10 * a + ((of_char c :: nat) - 0x30)) 0 ds"

text \<open>
  The integer that the digits \<open>ds\<close> write. For more than 20 significant digits the
  standard lets the engine replace every digit after the 20th by \<open>0\<close>; \<open>zero20\<close> says
  whether the engine at hand does so.
\<close>

definition math_int :: "bool \<Rightarrow> string \<Rightarrow> nat" where
  "math_int zero20 ds =
     (let sig = dropWhile (\<lambda>c. c = CHR ''0'') ds
      in if zero20 \<and> 20 < length sig
         then digits_value (take 20 sig) * 10 ^ (length sig - 20)
         else digits_value ds)"

text \<open>The number of binary digits of \<open>n\<close>.\<close>

fun bit_length :: "nat \<Rightarrow> nat" where
  "bit_length n = (if n = 0 then 0 else Suc (bit_length (n div 2)))"

text \<open>
  The Number for the integer \<open>n\<close>: \<open>n\<close> itself when it has at most 53 binary digits,
  else the nearest integer with 53 significant binary digits, a tie going to the even
  one, and \<open>Infinity\<close> when that reaches \<open>2 ^ 1024\<close>.
\<close>

definition to_Number :: "nat \<Rightarrow> js_number" where
  "to_Number n =
     (if bit_length n \<le> 53 then Num (int n)
      else let k = bit_length n - 53;
               q = n div 2 ^ k;
               r = n mod 2 ^ k;
               q' = (if 2 ^ (k - 1) < r \<or> (r = 2 ^ (k - 1) \<and> odd q) then q + 1 else q)
           in if 2 ^ 1024 \<le> q' * 2 ^ k then Infinity else Num (int (q' * 2 ^ k)))"

definition negated :: "js_number \<Rightarrow> js_number" where
  "negated x =
     (case x of
        NaN \<Rightarrow> NaN
      | Num i \<Rightarrow> Num (- i)
      | Infinity \<Rightarrow> MinusInfinity
      | MinusInfinity \<Rightarrow> Infinity)"

definition parseInt_10 :: "bool \<Rightarrow> string \<Rightarrow> js_number" where
  "parseInt_10 zero20 s =
     (let t = trimStart s;
          neg = (take 1 t = ''-'');
          u = (if take 1 t = ''-'' \<or> take 1 t = ''+'' then drop 1 t else t);
          ds = takeWhile is_digit u
      in if ds = [] then NaN
         else if neg then negated (to_Number (math_int zero20 ds))
         else to_Number (math_int zero20 ds))"

text \<open>\<open>v || d\<close> on the value of an input, \<open>undefined\<close> being \<open>None\<close>.\<close>

definition or_default :: "string option \<Rightarrow> string \<Rightarrow> string" where
  "or_default v d = (case v of None \<Rightarrow> d | Some s \<Rightarrow> if s = [] then d else s)"

section \<open>Requests\<close>

text \<open>
  A request is the path of its URL and the parameters of its query in their order.
  \<open>Encoded s\<close> is \<open>encodeURIComponent(s)\<close>, which the server decodes to \<open>s\<close>;
  \<open>Number n\<close> is the interpolation of the number \<open>n\<close>.
\<close>

datatype param = Encoded string | Number js_number

record request =
  path :: string
  query :: "(string \<times> param) list"

record response =
  ok :: bool
  statusText :: string
  body_json :: "js_error + json"

text \<open>
  \<open>fetch\<close> is the network: it rejects or resolves to a response. \<open>body_json\<close> is what
  \<open>r.json()\<close> settles to: the parsed body, or the error of a body that is no JSON.
\<close>

definition fetchJSON :: "(request \<Rightarrow> js_error + response) \<Rightarrow> request \<Rightarrow> js_error + json" where
  "fetchJSON fetch url =
     (case fetch url of
        Inl e \<Rightarrow> Inl e
      | Inr r \<Rightarrow> if \<not> ok r then Inl (Error (statusText r)) else body_json r)"

subsection \<open>Multi-person dashboard\<close>

text \<open>
  The inputs that the handlers read, taken to be on the page: the value of
  \<open>current-case-id\<close> and the value of \<open>hidden-minutes\<close> (\<open>None\<close> when the read yields
  \<open>undefined\<close>).
\<close>

record multi_page =
  current_case_id :: string
  hidden_minutes :: "string option"

definition hidden_request :: "string \<Rightarrow> js_number \<Rightarrow> request" where
  "hidden_request caseId minutes =
     \<lparr>path = ''/api/analysis/multi/hidden'',
      query = [(''case_id'', Encoded caseId), (''minutes'', Number minutes)]\<rparr>"

text \<open>
  The click handler of \<open>hidden-reload-btn\<close>: the request it issues. It reads
  \<open>current-case-id\<close> and sends it as it stands.
\<close>

definition hiddenReload_click :: "bool \<Rightarrow> multi_page \<Rightarrow> request" where
  "hiddenReload_click zero20 page =
     (let caseId = current_case_id page;
          minutes = parseInt_10 zero20 (or_default (hidden_minutes page) ''30'')
      in hidden_request caseId minutes)"

text \<open>\<open>loadAllData\<close> of the multi-person dashboard: the requests it issues, in order.\<close>

definition loadAllData_multi :: "bool \<Rightarrow> multi_page \<Rightarrow> string option \<Rightarrow> request list" where
  "loadAllData_multi zero20 page caseId =
     (case caseId of
        None \<Rightarrow> []
      | Some c \<Rightarrow>
          if c = [] then []
          else let minutes = parseInt_10 zero20 (or_default (hidden_minutes page) ''30'')
               in [\<lparr>path = ''/api/analysis/multi/interaction'',
                     query = [(''case_id'', Encoded c)]\<rparr>,
                   \<lparr>path = ''/api/analysis/multi/stolen_known'',
                     query = [(''case_id'', Encoded c)]\<rparr>,
                   hidden_request c minutes])"

subsection \<open>Single-person dashboard\<close>




section \<open>Upload page\<close>

text \<open>
  The three person roles are the option values of the role select, written here as the
  UTF-8 bytes of their Chinese names: screening subject, fence receiver, theft person.
\<close>

definition paicha_renyuan :: string where
  "paicha_renyuan =
     [CHR 0xE6, CHR 0x8E, CHR 0x92, CHR 0xE6, CHR 0x9F, CHR 0xA5,
      CHR 0xE4, CHR 0xBA, CHR 0xBA, CHR 0xE5, CHR 0x91, CHR 0x98]"

definition shouzang_renyuan :: string where
  "shouzang_renyuan =
     [CHR 0xE6, CHR 0x94, CHR 0xB6, CHR 0xE8, CHR 0x84, CHR 0x8F,
      CHR 0xE4, CHR 0xBA, CHR 0xBA, CHR 0xE5, CHR 0x91, CHR 0x98]"

definition daoqie_renyuan :: string where
  "daoqie_renyuan =
     [CHR 0xE7, CHR 0x9B, CHR 0x97, CHR 0xE7, CHR 0xAA, CHR 0x83,
      CHR 0xE4, CHR 0xBA, CHR 0xBA, CHR 0xE5, CHR 0x91, CHR 0x98]"

record File =
  file_name :: string
  file_size :: nat

record config =
  cfg_file :: File
  cfg_type :: string
  cfg_unit :: string

text \<open>
  A row of the staging area: the file name it was rendered for (its id is \<open>row-\<close>
  followed by that name) and the options of its two selects, each with its value and
  whether it is rendered \<open>selected\<close>.
\<close>

record row =
  row_name :: string
  type_options :: "(string \<times> bool) list"
  unit_options :: "(string \<times> bool) list"

text \<open>
  \<open>filesMap\<close> is a \<open>Map\<close>: keys are unique, in insertion order, and \<open>set\<close> on a key that
  is present replaces its value in place. \<open>staging\<close> holds the rows of
  \<open>file-staging-area\<close>; \<open>start_disabled\<close> is the \<open>disabled\<close> flag of
  \<open>start-upload-btn\<close>.
\<close>

record UploadManager =
  filesMap :: "(string \<times> config) list"
  staging :: "row list"
  start_disabled :: bool

text \<open>The constructor; \<open>d\<close> is the flag of the button as the page template sets it.\<close>

definition new_UploadManager :: "bool \<Rightarrow> UploadManager" where
  "new_UploadManager d = \<lparr>filesMap = [], staging = [], start_disabled = d\<rparr>"

fun remove_row :: "string \<Rightarrow> row list \<Rightarrow> row list" where
  "remove_row filename [] = []"
| "remove_row filename (r # rs) =
     (if row_name r = filename then rs else r # remove_row filename rs)"

definition renderRow :: "UploadManager \<Rightarrow> string \<Rightarrow> config \<Rightarrow> UploadManager" where
  "renderRow um filename config =
     um\<lparr>staging := remove_row filename (staging um) @
          [\<lparr>row_name = filename,
            type_options =
              [(paicha_renyuan, cfg_type config = paicha_renyuan),
               (shouzang_renyuan, cfg_type config = shouzang_renyuan),
               (daoqie_renyuan, cfg_type config = daoqie_renyuan)],
            unit_options =
              [(''yuan'', cfg_unit config = ''yuan''),
               (''fen'', cfg_unit config = ''fen''),
               (''jiao'', cfg_unit config = ''jiao'')]\<rparr>]\<rparr>"

text \<open>
  The text of the inline handlers that \<open>renderRow\<close> writes into the markup of a row: the
  file name goes between the quotes as it is. When the select changes or the bin is
  clicked, the engine runs that text as script.
\<close>

definition onchange_type :: "string \<Rightarrow> string" where
  "onchange_type filename =
     ''uploadManager.updateConfig('' @ [CHR 0x27] @ filename @ [CHR 0x27] @
     '', 'type', this.value)''"

definition onchange_unit :: "string \<Rightarrow> string" where
  "onchange_unit filename =
     ''uploadManager.updateConfig('' @ [CHR 0x27] @ filename @ [CHR 0x27] @
     '', 'unit', this.value)''"

definition onclick_bin :: "string \<Rightarrow> string" where
  "onclick_bin filename =
     ''uploadManager.remove('' @ [CHR 0x27] @ filename @ [CHR 0x27] @ '')''"

definition stage_file :: "UploadManager \<Rightarrow> File \<Rightarrow> UploadManager" where
  "stage_file um file =
     (let defaultType = paicha_renyuan;
          defaultUnit = (if endsWith (toLowerCase (file_name file)) ''.txt''
                         then ''fen'' else ''yuan'');
          config = \<lparr>cfg_file = file, cfg_type = defaultType, cfg_unit = defaultUnit\<rparr>
      in renderRow (um\<lparr>filesMap := AList.update (file_name file) config (filesMap um)\<rparr>)
           (file_name file) config)"

definition addFiles :: "UploadManager \<Rightarrow> File list \<Rightarrow> UploadManager" where
  "addFiles um fileList =
     (let um1 = (if filesMap um = [] then um\<lparr>staging := []\<rparr> else um);
          um2 = foldl stage_file um1 fileList
      in um2\<lparr>start_disabled := (filesMap um2 = [])\<rparr>)"

text \<open>
  \<open>updateConfig\<close> is called by the two selects of a row only, with the key \<open>'type'\<close> or
  \<open>'unit'\<close>.
\<close>

datatype config_key = KType | KUnit

definition updateConfig ::
  "UploadManager \<Rightarrow> string \<Rightarrow> config_key \<Rightarrow> string \<Rightarrow> UploadManager" where
  "updateConfig um filename key val =
     (case map_of (filesMap um) filename of
        None \<Rightarrow> um
      | Some config \<Rightarrow>
          um\<lparr>filesMap :=
               AList.update filename
                 (case key of KType \<Rightarrow> config\<lparr>cfg_type := val\<rparr>
                            | KUnit \<Rightarrow> config\<lparr>cfg_unit := val\<rparr>)
                 (filesMap um)\<rparr>)"

definition remove :: "UploadManager \<Rightarrow> string \<Rightarrow> UploadManager" where
  "remove um filename =
     (let fm = AList.delete filename (filesMap um);
          rows = remove_row filename (staging um)
      in \<lparr>filesMap = fm,
          staging = (if fm = [] then [] else rows),
          start_disabled = (fm = [])\<rparr>)"

subsection \<open>uploadAll\<close>

text \<open>
  \<open>configs[name] = v\<close> on the plain object \<open>configs\<close>: the name \<open>__proto__\<close> reaches the
  setter of the prototype and creates no own property, so \<open>JSON.stringify\<close> does not
  write it.
\<close>

definition object_set :: "(string \<times> 'v) list \<Rightarrow> string \<Rightarrow> 'v \<Rightarrow> (string \<times> 'v) list" where
  "object_set obj name v = (if name = ''__proto__'' then obj else AList.update name v obj)"

datatype alert = FillCaseNameAndId | AddAtLeastOneFile

text \<open>
  The form posted to \<open>/api/upload\<close>. \<open>file_configs\<close> holds the own properties of the
  object that is serialised: per file name, its \<open>type\<close> and its \<open>unit\<close>.
\<close>

record upload_form =
  case_name :: string
  case_id :: string
  files :: "File list"
  file_configs :: "(string \<times> string \<times> string) list"

datatype upload_outcome = Alerted alert | Posted upload_form

record upload_page =
  upload_case_name :: string
  upload_case_id :: string

text \<open>
  \<open>uploadAll\<close> up to its \<open>fetch\<close>: either an alert and an early return, or the form that
  is posted, with the button disabled. The page is taken to hold the two inputs and the
  button; the text of the status line is not modelled.
\<close>

definition uploadAll :: "upload_page \<Rightarrow> UploadManager \<Rightarrow> upload_outcome \<times> UploadManager" where
  "uploadAll page um =
     (let caseName = trim (upload_case_name page);
          caseId = trim (upload_case_id page)
      in if caseName = [] \<or> caseId = [] then (Alerted FillCaseNameAndId, um)
         else if filesMap um = [] then (Alerted AddAtLeastOneFile, um)
         else (Posted \<lparr>case_name = caseName, case_id = caseId,
                       files = map (\<lambda>(name, cfg). cfg_file cfg) (filesMap um),
                       file_configs =
                         foldl (\<lambda>configs (name, cfg).
                                  object_set configs name (cfg_type cfg, cfg_unit cfg))
                           [] (filesMap um)\<rparr>,
               um\<lparr>start_disabled := True\<rparr>))"

text \<open>
  \<open>uploadAll\<close> after its \<open>fetch\<close>, given what \<open>fetch\<close> and \<open>res.json()\<close> settle to: a
  body whose \<open>status\<close> is \<open>success\<close> schedules the reload of the page; anything else,
  also a rejection or a \<open>null\<close> body, is caught, reported in the status line, and the
  button is enabled again.
\<close>

datatype upload_result = Reloading | Failed

definition uploadAll_settle ::
  "js_error + json \<Rightarrow> UploadManager \<Rightarrow> upload_result \<times> UploadManager" where
  "uploadAll_settle res um =
     (case res of
        Inl e \<Rightarrow> (Failed, um\<lparr>start_disabled := False\<rparr>)
      | Inr data \<Rightarrow>
          if data \<noteq> JNull \<and> js_get data ''status'' = Some (JStr ''success'')
          then (Reloading, um)
          else (Failed, um\<lparr>start_disabled := False\<rparr>))"

subsection \<open>Sessions on the upload page\<close>

text \<open>
  What the user can do: choose or drop files, pick an option in a select of a row,
  click the bin of a row. \<open>renderRow\<close> writes the file name into the markup and into the
  text of the inline handlers as it is; the handlers do what is modelled here when the
  name arrives there unchanged, which is so for a name without quotes, backslash,
  ampersand, angle bracket and line break.
\<close>

definition inert_name :: "string \<Rightarrow> bool" where
  "inert_name s =
     (\<forall>c\<in>set s. c \<notin> set [CHR 0x22, CHR 0x26, CHR 0x27, CHR 0x3C, CHR 0x3E, CHR 0x5C,
                             CHR 0x0A, CHR 0x0D])"

datatype event =
    ChooseFiles "File list"
  | PickType string string
  | PickUnit string string
  | ClickBin string

fun step :: "UploadManager \<Rightarrow> event \<Rightarrow> UploadManager" where
  "step um (ChooseFiles fileList) = addFiles um fileList"
| "step um (PickType filename val) = updateConfig um filename KType val"
| "step um (PickUnit filename val) = updateConfig um filename KUnit val"
| "step um (ClickBin filename) = remove um filename"

text \<open>
  An event is on offer when the page shows the control: a select offers the values of
  its rendered options, a bin belongs to a rendered row.
\<close>

fun offered :: "UploadManager \<Rightarrow> event \<Rightarrow> bool" where
  "offered um (ChooseFiles fileList) = (\<forall>f\<in>set fileList. inert_name (file_name f))"
| "offered um (PickType filename val) =
     (\<exists>r\<in>set (staging um). row_name r = filename \<and> val \<in> fst ` set (type_options r))"
| "offered um (PickUnit filename val) =
     (\<exists>r\<in>set (staging um). row_name r = filename \<and> val \<in> fst ` set (unit_options r))"
| "offered um (ClickBin filename) = (\<exists>r\<in>set (staging um). row_name r = filename)"

fun session :: "UploadManager \<Rightarrow> event list \<Rightarrow> bool" where
  "session um [] = True"
| "session um (e # es) = (offered um e \<and> session (step um e) es)"

fun run :: "UploadManager \<Rightarrow> event list \<Rightarrow> UploadManager" where
  "run um [] = um"
| "run um (e # es) = run (step um e) es"

text \<open>The factor that the labels of the unit options announce.\<close>

definition unit_factor :: "string \<Rightarrow> rat option" where
  "unit_factor u =
     (if u = ''yuan'' then Some 1
      else if u = ''jiao'' then Some (1 / 10)
      else if u = ''fen'' then Some (1 / 100)
      else None)"

section \<open>Ingestion\<close>

text \<open>
  The ingestion service (\<open>app/services/ingestion.py\<close>) is not among the sources; what
  follows is section 4.2 of the specification. A batch is one uploaded file with its
  declared person-role and its declared unit; the outcome is the pair of counts
  \<open>imported\<close> and \<open>skipped\<close>, or the error of the batch.
\<close>

datatype ingest_error = InvalidIdentity

record 'r batch =
  declared_role :: string
  declared_unit :: string
  raw_rows :: "'r list"

record summary =
  imported :: nat
  skipped :: nat

text \<open>
  Modelled from the spec: the closed enumeration of person roles, which the ingestion
  service holds. The specification names them theft-person, fence-receiver and
  screening-subject; the README gives the three values that are allowed.
\<close>

definition canonical_roles :: "string list" where
  "canonical_roles = [daoqie_renyuan, shouzang_renyuan, paicha_renyuan]"

text \<open>
  Modelled from the spec: the normalisation pipeline of the ingestion service. The
  declared person-role of the batch must match the closed enumeration, otherwise the
  batch fails with \<open>InvalidIdentity\<close> and zero rows are committed. Else each row is
  normalised (denoising, unit factor, amount filter: the parameter \<open>normalise\<close>, which
  yields \<open>None\<close> for a discarded row), the surviving rows are written to the store in one
  batch, and the counts of imported and skipped rows are returned.
\<close>

definition ingest ::
  "(string \<Rightarrow> 'r \<Rightarrow> 't option) \<Rightarrow> 't list \<Rightarrow> 'r batch \<Rightarrow> (ingest_error + summary) \<times> 't list" where
  "ingest normalise store b =
     (if declared_role b \<notin> set canonical_roles then (Inl InvalidIdentity, store)
      else let kept = List.map_filter (normalise (declared_unit b)) (raw_rows b)
           in (Inr \<lparr>imported = length kept, skipped = length (raw_rows b) - length kept\<rparr>,
               store @ kept))"

section \<open>Predicates and inputs of the statements\<close>

text \<open>
  A response without rows, for a panel that reads the list under the key \<open>k\<close>: the
  payload is \<open>null\<close>, or an object without that key, or an object with the empty list.
\<close>

definition zero_rows :: "string \<Rightarrow> json \<Rightarrow> bool" where
  "zero_rows k data =
     (data = JNull \<or>
      (case data of
         JObj kvs \<Rightarrow> map_of kvs k = None \<or> map_of kvs k = Some (JArr [])
       | v \<Rightarrow> False))"

definition role_values :: "string set" where
  "role_values = {paicha_renyuan, shouzang_renyuan, daoqie_renyuan}"

definition unit_values :: "string set" where
  "unit_values = {''yuan'', ''fen'', ''jiao''}"

text \<open>
  What holds of the upload page at every moment of a session: keys are unique, every
  staged configuration holds an offered role and an offered unit, and every rendered
  select offers nothing else.
\<close>

definition page_inv :: "UploadManager \<Rightarrow> bool" where
  "page_inv um =
     (distinct (map fst (filesMap um))
      \<and> (\<forall>name cfg. map_of (filesMap um) name = Some cfg \<longrightarrow>
            cfg_type cfg \<in> role_values \<and> cfg_unit cfg \<in> unit_values)
      \<and> (\<forall>r\<in>set (staging um).
            fst ` set (type_options r) \<subseteq> role_values \<and>
            fst ` set (unit_options r) \<subseteq> unit_values))"

definition default_config :: "string \<Rightarrow> config \<Rightarrow> bool" where
  "default_config name cfg =
     (cfg_type cfg = paicha_renyuan \<and>
      cfg_unit cfg = (if endsWith (toLowerCase name) ''.txt'' then ''fen'' else ''yuan''))"

subsection \<open>Sample payloads\<close>

definition tracing_row :: json where
  "tracing_row =
     JObj [(''source'', JStr ''A''), (''target'', JStr ''B''), (''amount'', JNum 12000)]"

definition stats_record :: json where
  "stats_record = JObj [(''counterparty_name'', JStr ''C''), (''net_amount'', JNum (- 500))]"

definition no_text_number :: "json \<Rightarrow> rat option" where
  "no_text_number j = None"

definition small_graph :: json where
  "small_graph =
     JObj [(''nodes'', JArr [JStr ''A'', JStr ''B'', JStr ''C'']),
           (''links'',
            JArr [JObj [(''source'', JStr ''A''), (''target'', JStr ''B''), (''value'', JNum 12000)],
                  JObj [(''source'', JStr ''A''), (''target'', JStr ''C''), (''value'', JNum 500)],
                  JObj [(''source'', JStr ''B''), (''target'', JStr ''C''), (''value'', JNum 20000)]])]"

subsection \<open>Sample responses\<close>

definition cases_request :: request where
  "cases_request = \<lparr>path = ''/api/cases'', query = []\<rparr>"

definition html_response :: response where
  "html_response = \<lparr>ok = True, statusText = ''OK'', body_json = Inl SyntaxError\<rparr>"

definition html_fetch :: "request \<Rightarrow> js_error + response" where
  "html_fetch url = Inr html_response"

definition list_response :: response where
  "list_response =
     \<lparr>ok = True, statusText = ''OK'',
      body_json = Inr (JObj [(''success'', JBool True), (''data'', JArr [])])\<rparr>"

definition list_fetch :: "request \<Rightarrow> js_error + response" where
  "list_fetch url = Inr list_response"

definition failed_response :: response where
  "failed_response =
     \<lparr>ok = False, statusText = ''Internal Server Error'', body_json = Inr JNull\<rparr>"

definition failed_fetch :: "request \<Rightarrow> js_error + response" where
  "failed_fetch url = Inr failed_response"

subsection \<open>Sample pages\<close>

definition fresh_page :: multi_page where
  "fresh_page = \<lparr>current_case_id = ''CASE-001'', hidden_minutes = Some []\<rparr>"

definition page_45 :: multi_page where
  "page_45 = \<lparr>current_case_id = ''CASE-001'', hidden_minutes = Some ''45''\<rparr>"


definition bank_xlsx :: File where
  "bank_xlsx = \<lparr>file_name = ''bank.xlsx'', file_size = 2048\<rparr>"

definition pay_TXT :: File where
  "pay_TXT = \<lparr>file_name = ''pay.TXT'', file_size = 512\<rparr>"

definition proto_file :: File where
  "proto_file = \<lparr>file_name = ''__proto__'', file_size = 1\<rparr>"

definition case_page :: upload_page where
  "case_page = \<lparr>upload_case_name = '' Case A '', upload_case_id = ''CASE-001''\<rparr>"

definition blank_page :: upload_page where
  "blank_page = \<lparr>upload_case_name = [], upload_case_id = ''CASE-001''\<rparr>"

definition staging_session :: "event list" where
  "staging_session =
     [ChooseFiles [bank_xlsx, pay_TXT],
      PickType ''bank.xlsx'' daoqie_renyuan,
      PickUnit ''bank.xlsx'' ''jiao'']"

definition boss_batch :: "nat batch" where
  "boss_batch = \<lparr>declared_role = ''boss'', declared_unit = ''yuan'', raw_rows = [15000, 50]\<rparr>"

definition keep_100 :: "string \<Rightarrow> nat \<Rightarrow> nat option" where
  "keep_100 u a = (if a < 100 then None else Some a)"


text \<open>
  Two files for the role select: \<open>a.csv\<close>, and one whose name closes the quote of the
  handler text and goes on as script.
\<close>

definition a_csv :: File where
  "a_csv = \<lparr>file_name = ''a.csv'', file_size = 100\<rparr>"

definition crafted_name :: string where
  "crafted_name = ''a.csv','type','boss')+('' @ [CHR 0x27]"

definition crafted_file :: File where
  "crafted_file = \<lparr>file_name = crafted_name, file_size = 100\<rparr>"

definition two_staged :: UploadManager where
  "two_staged = addFiles (new_UploadManager True) [a_csv, crafted_file]"

section \<open>Facts about the helpers\<close>

declare strip_leading.simps [simp del]

lemma map_rows_Inr:
  "map_rows f xs = Inr ys \<Longrightarrow>
     length ys = length xs \<and> (\<forall>i<length xs. f (xs ! i) = Inr (ys ! i))"
proof (induction xs arbitrary: ys)
  case Nil
  then show ?case by simp
next
  case (Cons x xs)
  from Cons.prems obtain y ys' where fx: "f x = Inr y" and rest: "map_rows f xs = Inr ys'"
    and ys: "ys = y # ys'"
    by (auto split: sum.splits)
  from Cons.IH[OF rest] have len: "length ys' = length xs"
    and nth: "\<forall>i<length xs. f (xs ! i) = Inr (ys' ! i)" by simp_all
  have "length ys = length (x # xs)" using len ys by simp
  moreover have "f ((x # xs) ! i) = Inr (ys ! i)" if "i < length (x # xs)" for i
    using that fx nth ys by (cases i) simp_all
  ultimately show ?case by blast
qed

lemma map_rows_total:
  "\<forall>x\<in>set xs. \<not> isl (f x) \<Longrightarrow> \<exists>ys. map_rows f xs = Inr ys"
proof (induction xs)
  case Nil
  then show ?case by simp
next
  case (Cons x xs)
  then obtain ys where "map_rows f xs = Inr ys" by auto
  moreover from Cons.prems obtain y where "f x = Inr y" by (cases "f x") auto
  ultimately show ?case by simp
qed

lemma js_get_truthy: "js_get data k = Some v \<Longrightarrow> k \<noteq> ''length'' \<Longrightarrow> truthy data"
  by (cases data) (auto split: if_splits)

lemma no_rows_arr:
  "js_get data ''data'' = Some (JArr xs) \<Longrightarrow> no_rows data = (xs = [])"
  using js_get_truthy[of data "''data''" "JArr xs"] by (simp add: no_rows_def)

lemma first_50_rows:
  assumes m: "map_rows f (take 50 xs) = Inr rows"
  shows "length rows = min 50 (length xs) \<and> (\<forall>i<length rows. f (xs ! i) = Inr (rows ! i))"
proof -
  from map_rows_Inr[OF m] have len: "length rows = length (take 50 xs)"
    and nth: "\<forall>i<length (take 50 xs). f (take 50 xs ! i) = Inr (rows ! i)" by simp_all
  show ?thesis using len nth by (auto simp: min_def)
qed

lemma zero_rows_no_rows: "zero_rows ''data'' data \<Longrightarrow> no_rows data"
  by (cases data) (auto simp: zero_rows_def no_rows_def)

section \<open>The dashboards\<close>

text \<open>
  C3. For an interaction graph with at least one node, \<open>renderInteraction\<close> shows as the
  number of links the full length of the returned list of links, whatever their values
  are. The links whose value exceeds 10000 are counted beside it, never taken out of the
  list: their count is at most the number shown, and a link with a numeric value \<open>w\<close> is
  counted exactly when \<open>10000 < w\<close>. The call throws only if a link is \<open>null\<close> or has a
  value that cannot be compared.
\<close>

theorem renderInteraction_counts_every_link:
  assumes n: "js_get data ''nodes'' = Some (JArr ns)" and ne: "ns \<noteq> []"
    and l: "js_get data ''links'' = Some (JArr links)"
  shows "renderInteraction tn data =
           (if \<forall>l\<in>set links. l \<noteq> JNull \<and> interpolates (js_get l ''value'')
            then Inr (InteractionSummary (Some (JNum (of_nat (length ns)))) (length links)
                        (length (filter (exceeds_10000 tn) links)))
            else Inl TypeError)
         \<and> length (filter (exceeds_10000 tn) links) \<le> length links
         \<and> (\<forall>l\<in>set links. \<forall>w. js_get l ''value'' = Some (JNum w) \<longrightarrow>
               exceeds_10000 tn l = (10000 < w))"
proof -
  from n have t: "truthy data" by (rule js_get_truthy) simp
  have len: "js_get (JArr ns) ''length'' \<noteq> Some (JNum 0)" using ne by simp
  have i: "interpolates (js_get (JArr ns) ''length'')" by (simp add: interpolates_def)
  have "renderInteraction tn data =
           (if \<forall>l\<in>set links. l \<noteq> JNull \<and> interpolates (js_get l ''value'')
            then Inr (InteractionSummary (Some (JNum (of_nat (length ns)))) (length links)
                        (length (filter (exceeds_10000 tn) links)))
            else Inl TypeError)"
    unfolding renderInteraction_def using t n l len i by simp
  moreover have "\<forall>l\<in>set links. \<forall>w. js_get l ''value'' = Some (JNum w) \<longrightarrow>
               exceeds_10000 tn l = (10000 < w)"
    by (simp add: exceeds_10000_def to_number_def)
  ultimately show ?thesis by simp
qed

text \<open>Three nodes, three links, two of them above 10000: the panel shows 3 links.\<close>

theorem renderInteraction_counts_every_link_witness:
  "renderInteraction no_text_number small_graph = Inr (InteractionSummary (Some (JNum 3)) 3 2)"
proof -
  have n: "js_get small_graph ''nodes'' = Some (JArr [JStr ''A'', JStr ''B'', JStr ''C''])"
    by (simp add: small_graph_def)
  have ne: "[JStr ''A'', JStr ''B'', JStr ''C''] \<noteq> []" by simp
  have l: "js_get small_graph ''links'' =
      Some (JArr [JObj [(''source'', JStr ''A''), (''target'', JStr ''B''), (''value'', JNum 12000)],
                  JObj [(''source'', JStr ''A''), (''target'', JStr ''C''), (''value'', JNum 500)],
                  JObj [(''source'', JStr ''B''), (''target'', JStr ''C''), (''value'', JNum 20000)]])"
    by (simp add: small_graph_def)
  show ?thesis
    using renderInteraction_counts_every_link[OF n ne l, of no_text_number]
    by (simp add: interpolates_def exceeds_10000_def to_number_def)
qed

text \<open>
  C5. Whenever \<open>renderStats\<close> shows a table for the returned list \<open>xs\<close>, the table has
  \<open>min 50 (length xs)\<close> rows, so never more than 50, and its row \<open>i\<close> is the rendering of
  \<open>xs ! i\<close>: the first 50 rows in the order returned. It does show a table as soon as the
  list is not empty and each of its first 50 rows can be rendered.
\<close>

theorem renderStats_first_50:
  assumes d: "js_get data ''data'' = Some (JArr xs)"
  shows "(\<forall>rows. renderStats data = Inr (Table rows) \<longrightarrow>
            length rows \<le> 50 \<and> length rows = min 50 (length xs) \<and>
            (\<forall>i<length rows. stats_tr (xs ! i) = Inr (rows ! i)))
       \<and> (xs \<noteq> [] \<and> (\<forall>x\<in>set (take 50 xs). \<not> isl (stats_tr x)) \<longrightarrow>
            (\<exists>rows. renderStats data = Inr (Table rows)))"
proof (rule conjI)
  show "\<forall>rows. renderStats data = Inr (Table rows) \<longrightarrow>
            length rows \<le> 50 \<and> length rows = min 50 (length xs) \<and>
            (\<forall>i<length rows. stats_tr (xs ! i) = Inr (rows ! i))"
  proof (intro allI impI)
    fix rows
    assume r: "renderStats data = Inr (Table rows)"
    from d r have "map_rows stats_tr (take 50 xs) = Inr rows"
      by (auto simp: renderStats_def no_rows_arr split: sum.splits if_splits)
    from first_50_rows[OF this]
    show "length rows \<le> 50 \<and> length rows = min 50 (length xs) \<and>
            (\<forall>i<length rows. stats_tr (xs ! i) = Inr (rows ! i))"
      by simp
  qed
next
  show "xs \<noteq> [] \<and> (\<forall>x\<in>set (take 50 xs). \<not> isl (stats_tr x)) \<longrightarrow>
            (\<exists>rows. renderStats data = Inr (Table rows))"
  proof
    assume h: "xs \<noteq> [] \<and> (\<forall>x\<in>set (take 50 xs). \<not> isl (stats_tr x))"
    from h map_rows_total[of "take 50 xs" stats_tr] obtain rows
      where "map_rows stats_tr (take 50 xs) = Inr rows" by blast
    with d h show "\<exists>rows. renderStats data = Inr (Table rows)"
      by (simp add: renderStats_def no_rows_arr)
  qed
qed

text \<open>Of 51 returned rows, 50 are shown.\<close>

theorem renderStats_first_50_witness:
  "renderStats (JObj [(''data'', JArr (replicate 51 stats_record))]) =
     Inr (Table (replicate 50 (StatsRow (Some (JStr ''C'')) (JNum (- 500)))))"
proof -
  let ?d = "JObj [(''data'', JArr (replicate 51 stats_record))]"
  have g: "js_get ?d ''data'' = Some (JArr (replicate 51 stats_record))" by simp
  have t: "stats_tr stats_record = Inr (StatsRow (Some (JStr ''C'')) (JNum (- 500)))"
    by (simp add: stats_tr_def stats_record_def interpolates_def or_zero_def)
  have ok: "replicate 51 stats_record \<noteq> [] \<and>
            (\<forall>x\<in>set (take 50 (replicate 51 stats_record)). \<not> isl (stats_tr x))"
    using t by simp
  from renderStats_first_50[OF g] ok obtain rows
    where r: "renderStats ?d = Inr (Table rows)"
      and len: "length rows = min 50 (length (replicate 51 stats_record))"
      and nth: "\<forall>i<length rows. stats_tr (replicate 51 stats_record ! i) = Inr (rows ! i)"
    by blast
  have "rows = replicate 50 (StatsRow (Some (JStr ''C'')) (JNum (- 500)))"
    using len nth t by (intro nth_equalityI) auto
  with r show ?thesis by simp
qed

text \<open>
  C7. A response without rows (the payload is \<open>null\<close>, or lacks the list, or holds the
  empty list) makes every render function write its empty-state placeholder and return;
  none of the six throws. The five list panels read the list \<open>data\<close>, the interaction
  panel reads \<open>nodes\<close>.
\<close>

theorem zero_rows_render_placeholder:
  "(zero_rows ''data'' data \<longrightarrow>
      renderTrend data = Inr NoTrend \<and> renderStats data = Inr Placeholder \<and>
      renderKeywords data = Inr Placeholder \<and> renderStolen data = Inr Placeholder \<and>
      renderHidden data = Inr Placeholder)
   \<and> (zero_rows ''nodes'' data \<longrightarrow> renderInteraction tn data = Inr NoInteraction)"
proof (intro conjI impI)
  assume "zero_rows ''nodes'' data"
  then show "renderInteraction tn data = Inr NoInteraction"
    by (cases data) (auto simp: zero_rows_def renderInteraction_def)
qed (simp_all add: zero_rows_no_rows renderTrend_def renderStats_def renderKeywords_def
       renderStolen_def renderHidden_def)

text \<open>The empty object has neither list; an object may also hold the list, empty.\<close>

theorem zero_rows_render_placeholder_witness:
  "zero_rows ''data'' (JObj []) \<and> zero_rows ''nodes'' (JObj [])
   \<and> renderTrend (JObj []) = Inr NoTrend \<and> renderStats (JObj []) = Inr Placeholder
   \<and> renderKeywords (JObj []) = Inr Placeholder \<and> renderStolen (JObj []) = Inr Placeholder
   \<and> renderHidden (JObj []) = Inr Placeholder
   \<and> renderInteraction no_text_number (JObj []) = Inr NoInteraction
   \<and> zero_rows ''data'' (JObj [(''data'', JArr [])])
   \<and> renderHidden (JObj [(''data'', JArr [])]) = Inr Placeholder
   \<and> zero_rows ''data'' JNull \<and> renderTrend JNull = Inr NoTrend"
proof -
  have a: "zero_rows ''data'' JNull" "zero_rows ''data'' (JObj [])"
    "zero_rows ''data'' (JObj [(''data'', JArr [])])" "zero_rows ''nodes'' (JObj [])"
    by (simp_all add: zero_rows_def)
  show ?thesis
    using a
      zero_rows_render_placeholder[of JNull no_text_number]
      zero_rows_render_placeholder[of "JObj []" no_text_number]
      zero_rows_render_placeholder[of "JObj [(''data'', JArr [])]" no_text_number]
    by simp
qed

text \<open>
  C10. Whenever \<open>renderStolen\<close> shows a table for the returned list \<open>xs\<close> of tracing
  rows, the table has \<open>min 50 (length xs)\<close> rows and its row \<open>i\<close> is the rendering of
  \<open>xs ! i\<close>: at most the first 50 rows are shown and the rest is dropped without notice.
  It does show a table as soon as the list is not empty and each of its first 50 rows
  can be rendered.
\<close>

theorem renderStolen_first_50:
  assumes d: "js_get data ''data'' = Some (JArr xs)"
  shows "(\<forall>rows. renderStolen data = Inr (Table rows) \<longrightarrow>
            length rows = min 50 (length xs) \<and>
            (\<forall>i<length rows. stolen_tr (xs ! i) = Inr (rows ! i)))
       \<and> (xs \<noteq> [] \<and> (\<forall>x\<in>set (take 50 xs). \<not> isl (stolen_tr x)) \<longrightarrow>
            (\<exists>rows. renderStolen data = Inr (Table rows)))"
proof (rule conjI)
  show "\<forall>rows. renderStolen data = Inr (Table rows) \<longrightarrow>
            length rows = min 50 (length xs) \<and>
            (\<forall>i<length rows. stolen_tr (xs ! i) = Inr (rows ! i))"
  proof (intro allI impI)
    fix rows
    assume r: "renderStolen data = Inr (Table rows)"
    from d r have "map_rows stolen_tr (take 50 xs) = Inr rows"
      by (auto simp: renderStolen_def no_rows_arr split: sum.splits if_splits)
    then show "length rows = min 50 (length xs) \<and>
                 (\<forall>i<length rows. stolen_tr (xs ! i) = Inr (rows ! i))"
      by (rule first_50_rows)
  qed
next
  show "xs \<noteq> [] \<and> (\<forall>x\<in>set (take 50 xs). \<not> isl (stolen_tr x)) \<longrightarrow>
            (\<exists>rows. renderStolen data = Inr (Table rows))"
  proof
    assume h: "xs \<noteq> [] \<and> (\<forall>x\<in>set (take 50 xs). \<not> isl (stolen_tr x))"
    from h map_rows_total[of "take 50 xs" stolen_tr] obtain rows
      where "map_rows stolen_tr (take 50 xs) = Inr rows" by blast
    with d h show "\<exists>rows. renderStolen data = Inr (Table rows)"
      by (simp add: renderStolen_def no_rows_arr)
  qed
qed

text \<open>Of 51 returned tracing rows, 50 are shown.\<close>

theorem renderStolen_first_50_witness:
  "renderStolen (JObj [(''data'', JArr (replicate 51 tracing_row))]) =
     Inr (Table (replicate 50 (StolenRow (Some (JStr ''A'')) (Some (JStr ''B'')) (JNum 12000))))"
proof -
  let ?d = "JObj [(''data'', JArr (replicate 51 tracing_row))]"
  have g: "js_get ?d ''data'' = Some (JArr (replicate 51 tracing_row))" by simp
  have t: "stolen_tr tracing_row =
             Inr (StolenRow (Some (JStr ''A'')) (Some (JStr ''B'')) (JNum 12000))"
    by (simp add: stolen_tr_def tracing_row_def interpolates_def or_zero_def)
  have ok: "replicate 51 tracing_row \<noteq> [] \<and>
            (\<forall>x\<in>set (take 50 (replicate 51 tracing_row)). \<not> isl (stolen_tr x))"
    using t by simp
  from renderStolen_first_50[OF g] ok obtain rows
    where r: "renderStolen ?d = Inr (Table rows)"
      and len: "length rows = min 50 (length (replicate 51 tracing_row))"
      and nth: "\<forall>i<length rows. stolen_tr (replicate 51 tracing_row ! i) = Inr (rows ! i)"
    by blast
  have "rows = replicate 50 (StolenRow (Some (JStr ''A'')) (Some (JStr ''B'')) (JNum 12000))"
    using len nth t by (intro nth_equalityI) auto
  with r show ?thesis by simp
qed

section \<open>Requests of the dashboards\<close>

lemma strip_leading_Nil: "strip_leading ws [] = []"
proof -
  have "find (\<lambda>w. w \<noteq> [] \<and> take (length w) [] = w) ws = None"
    by (auto simp: find_None_iff)
  then show ?thesis by (subst strip_leading.simps) simp
qed

lemma trim_Nil: "trim [] = []"
  by (simp add: trim_def trimStart_def trimEnd_def strip_leading_Nil)

lemma strip_leading_other_head:
  assumes "\<forall>w\<in>set ws. w \<noteq> [] \<longrightarrow> hd w \<noteq> c"
  shows "strip_leading ws (c # s) = c # s"
proof -
  have "\<not> (w \<noteq> [] \<and> take (length w) (c # s) = w)" if "w \<in> set ws" for w
  proof (cases w)
    case Nil
    then show ?thesis by simp
  next
    case (Cons a w')
    with that assms have "a \<noteq> c" by auto
    with Cons show ?thesis by simp
  qed
  then have "find (\<lambda>w. w \<noteq> [] \<and> take (length w) (c # s) = w) ws = None"
    by (simp add: find_None_iff)
  then show ?thesis by (subst strip_leading.simps) simp
qed

lemma white_space_heads:
  "\<forall>w\<in>set white_space. w \<noteq> [] \<longrightarrow> \<not> is_digit (hd w)"
  by (simp add: white_space_def is_digit_def)

lemma trimStart_digit:
  assumes "is_digit c"
  shows "trimStart (c # s) = c # s"
  unfolding trimStart_def
  using assms white_space_heads by (intro strip_leading_other_head) blast

declare bit_length.simps [simp del]

lemma digits_value_snoc:
  "digits_value (s @ [c]) = 10 * digits_value s + ((of_char c :: nat) - 0x30)"
  by (simp add: digits_value_def)

lemma digits_value_less:
  "\<forall>c\<in>set s. is_digit c \<Longrightarrow> digits_value s < 10 ^ length s"
proof (induction s rule: rev_induct)
  case Nil
  then show ?case by (simp add: digits_value_def)
next
  case (snoc c s)
  then have v: "digits_value s < 10 ^ length s" by simp
  from snoc.prems have "(of_char c :: nat) \<le> 0x39" by (simp add: is_digit_def)
  then have "(of_char c :: nat) - 0x30 \<le> 9" by arith
  with v show ?case by (simp add: digits_value_snoc)
qed

lemma bit_length_le: "n < 2 ^ k \<Longrightarrow> bit_length n \<le> k"
proof (induction k arbitrary: n)
  case 0
  then show ?case by (simp add: bit_length.simps)
next
  case (Suc k)
  show ?case
  proof (cases "n = 0")
    case True
    then show ?thesis by (simp add: bit_length.simps)
  next
    case False
    from Suc.prems have "n div 2 < 2 ^ k" by simp
    then have "bit_length (n div 2) \<le> k" by (rule Suc.IH)
    with False show ?thesis by (subst bit_length.simps) simp
  qed
qed

lemma to_Number_exact: "n < 2 ^ 53 \<Longrightarrow> to_Number n = Num (int n)"
  using bit_length_le[of n 53] by (simp add: to_Number_def)

lemma math_int_short: "length ds \<le> 20 \<Longrightarrow> math_int zero20 ds = digits_value ds"
proof -
  assume "length ds \<le> 20"
  moreover have "length (dropWhile (\<lambda>c. c = CHR ''0'') ds) \<le> length ds"
    by (rule length_dropWhile_le)
  ultimately show ?thesis by (simp add: math_int_def Let_def)
qed

lemma parseInt_10_digits:
  assumes ne: "s \<noteq> []" and ds: "\<forall>c\<in>set s. is_digit c"
  shows "parseInt_10 zero20 s = to_Number (math_int zero20 s)"
proof -
  from ne obtain c r where s: "s = c # r" by (cases s) auto
  with ds have c: "is_digit c" by simp
  have t: "trimStart s = s" using c s by (simp only: trimStart_digit)
  have sg: "take 1 s \<noteq> ''-''" "take 1 s \<noteq> ''+''"
    using c s by (auto simp: is_digit_def)
  have tw: "takeWhile is_digit s = s" using ds by (simp add: takeWhile_eq_all_conv)
  show ?thesis
    using sg ne by (simp add: parseInt_10_def Let_def t tw)
qed

lemma parseInt_10_small:
  assumes ne: "s \<noteq> []" and ds: "\<forall>c\<in>set s. is_digit c" and len: "length s \<le> 15"
  shows "parseInt_10 zero20 s = Num (int (digits_value s))"
proof -
  from len have m: "math_int zero20 s = digits_value s" by (simp add: math_int_short)
  have "digits_value s < 10 ^ length s" using ds by (rule digits_value_less)
  also have "(10::nat) ^ length s \<le> 10 ^ 15" using len by (intro power_increasing) simp_all
  also have "(10::nat) ^ 15 < 2 ^ 53" by simp
  finally have "to_Number (digits_value s) = Num (int (digits_value s))"
    by (rule to_Number_exact)
  with m parseInt_10_digits[OF ne ds, of zero20] show ?thesis by simp
qed

lemma parseInt_10_30: "parseInt_10 zero20 ''30'' = Num 30"
proof -
  have "parseInt_10 zero20 ''30'' = Num (int (digits_value ''30''))"
    by (rule parseInt_10_small) (simp_all add: is_digit_def)
  then show ?thesis by (simp add: digits_value_def)
qed

lemma hidden_minutes_default:
  "v = None \<or> v = Some [] \<Longrightarrow> parseInt_10 zero20 (or_default v ''30'') = Num 30"
  by (auto simp: or_default_def parseInt_10_30)

lemma hidden_minutes_given:
  "s \<noteq> [] \<Longrightarrow> parseInt_10 zero20 (or_default (Some s) ''30'') = parseInt_10 zero20 s"
  by (simp add: or_default_def)

lemma loadAllData_multi_third:
  "c \<noteq> [] \<Longrightarrow>
     loadAllData_multi zero20 page (Some c) ! 2 =
       hidden_request c (parseInt_10 zero20 (or_default (hidden_minutes page) ''30''))"
  by (simp add: loadAllData_multi_def Let_def)

lemma bit_length_ge: "2 ^ k \<le> n \<Longrightarrow> Suc k \<le> bit_length n"
proof (induction k arbitrary: n)
  case 0
  then have "n \<noteq> 0" by simp
  then show ?case by (subst bit_length.simps) simp
next
  case (Suc k)
  have "(0::nat) < 2 ^ Suc k" by simp
  with Suc.prems have n: "n \<noteq> 0" by linarith
  from Suc.prems have "2 ^ k \<le> n div 2" by simp
  then have "Suc k \<le> bit_length (n div 2)" by (rule Suc.IH)
  with n show ?case by (subst bit_length.simps) simp
qed

lemma bit_length_eq: "2 ^ k \<le> n \<Longrightarrow> n < 2 ^ Suc k \<Longrightarrow> bit_length n = Suc k"
  using bit_length_ge[of k n] bit_length_le[of n "Suc k"] by simp

lemma math_int_2_53_plus_1: "math_int False ''9007199254740993'' = 9007199254740993"
  by (simp add: math_int_def digits_value_def)

lemma to_Number_2_53_plus_1: "to_Number 9007199254740993 = Num 9007199254740992"
proof -
  have b: "bit_length 9007199254740993 = Suc 53"
    by (rule bit_length_eq) simp_all
  show ?thesis by (simp add: to_Number_def b Let_def)
qed

lemma bit_length_lower: "n \<noteq> 0 \<Longrightarrow> 2 ^ (bit_length n - 1) \<le> n"
proof (induction n rule: bit_length.induct)
  case (1 n)
  show ?case
  proof (cases "n div 2 = 0")
    case True
    with "1.prems" have b: "bit_length n = Suc 0"
      by (subst bit_length.simps) (simp add: bit_length.simps[of 0])
    from "1.prems" show ?thesis by (simp add: b)
  next
    case False
    with "1.IH" "1.prems" have ih: "2 ^ (bit_length (n div 2) - 1) \<le> n div 2" by simp
    from False have p: "bit_length (n div 2) \<noteq> 0"
      by (subst bit_length.simps) simp
    from "1.prems" have b: "bit_length n = Suc (bit_length (n div 2))"
      by (subst bit_length.simps) simp
    from p have "(2::nat) ^ (bit_length n - 1) = 2 * 2 ^ (bit_length (n div 2) - 1)"
      by (cases "bit_length (n div 2)") (simp_all add: b)
    also have "\<dots> \<le> 2 * (n div 2)" using ih by simp
    also have "\<dots> \<le> n" by simp
    finally show ?thesis .
  qed
qed

lemma to_Number_Infinity:
  assumes big: "2 ^ 1024 \<le> n"
  shows "to_Number n = Infinity"
proof -
  define e where "e = bit_length n"
  define k where "k = e - 53"
  from big have e: "1025 \<le> e" using bit_length_ge[of 1024 n] by (simp add: e_def)
  have "(0::nat) < 2 ^ 1024" by simp
  with big have n0: "n \<noteq> 0" by linarith
  then have lo: "2 ^ (e - 1) \<le> n" unfolding e_def by (rule bit_length_lower)
  from e have split: "e - 1 = 52 + k" by (simp add: k_def)
  have lo': "2 ^ 52 * 2 ^ k \<le> n"
    using lo[unfolded split] by (simp only: power_add)
  have "(2::nat) ^ 52 = (2 ^ 52 * 2 ^ k) div 2 ^ k" by simp
  also have "\<dots> \<le> n div 2 ^ k"
    using lo' by (rule div_le_mono)
  finally have q: "2 ^ 52 \<le> n div 2 ^ k" .
  have "(2::nat) ^ 1024 \<le> 2 ^ (52 + k)"
    using e by (intro power_increasing) (simp_all add: k_def)
  also have "\<dots> = 2 ^ 52 * 2 ^ k" by (simp add: power_add)
  also have "\<dots> \<le> (n div 2 ^ k) * 2 ^ k" using q by (rule mult_le_mono1)
  finally have r: "2 ^ 1024 \<le> (n div 2 ^ k) * 2 ^ k" .
  then have r': "2 ^ 1024 \<le> (n div 2 ^ k + 1) * 2 ^ k"
    by (simp add: add_mult_distrib)
  from e have ne: "\<not> e \<le> 53" by simp
  show ?thesis
    unfolding to_Number_def Let_def e_def[symmetric] k_def[symmetric]
    using ne r r' by (simp only: if_False if_True split: if_splits) auto
qed

text \<open>
  C4. When the minutes field is absent or empty, the hidden-accomplice request carries
  the window 30, from the reload button as well as from \<open>loadAllData\<close>. When the field
  holds a value, the request carries \<open>parseInt\<close> of that value in base 10. For a value
  made of decimal digits that is the Number for the integer they write, which is that
  integer itself for up to 15 digits and the nearest double beyond \<open>2 ^ 53\<close>.
\<close>

theorem hidden_window_defaults_to_30:
  "(hidden_minutes page = None \<or> hidden_minutes page = Some [] \<longrightarrow>
      hiddenReload_click zero20 page = hidden_request (current_case_id page) (Num 30) \<and>
      (\<forall>c. c \<noteq> [] \<longrightarrow>
         loadAllData_multi zero20 page (Some c) ! 2 = hidden_request c (Num 30)))
   \<and> (\<forall>s. hidden_minutes page = Some s \<and> s \<noteq> [] \<longrightarrow>
      hiddenReload_click zero20 page =
        hidden_request (current_case_id page) (parseInt_10 zero20 s) \<and>
      (\<forall>c. c \<noteq> [] \<longrightarrow>
         loadAllData_multi zero20 page (Some c) ! 2 = hidden_request c (parseInt_10 zero20 s)))
   \<and> (\<forall>s. s \<noteq> [] \<and> (\<forall>c\<in>set s. is_digit c) \<longrightarrow>
      parseInt_10 zero20 s = to_Number (math_int zero20 s) \<and>
      (length s \<le> 15 \<longrightarrow> parseInt_10 zero20 s = Num (int (digits_value s))))"
proof (intro conjI allI impI)
  assume a: "hidden_minutes page = None \<or> hidden_minutes page = Some []"
  then have m: "parseInt_10 zero20 (or_default (hidden_minutes page) ''30'') = Num 30"
    by (rule hidden_minutes_default)
  show "hiddenReload_click zero20 page = hidden_request (current_case_id page) (Num 30)"
    by (simp add: hiddenReload_click_def Let_def m)
  show "loadAllData_multi zero20 page (Some c) ! 2 = hidden_request c (Num 30)"
    if "c \<noteq> []" for c
    using that by (simp add: loadAllData_multi_third m)
next
  fix s
  assume a: "hidden_minutes page = Some s \<and> s \<noteq> []"
  then have m: "parseInt_10 zero20 (or_default (hidden_minutes page) ''30'') = parseInt_10 zero20 s"
    by (simp add: hidden_minutes_given)
  show "hiddenReload_click zero20 page =
          hidden_request (current_case_id page) (parseInt_10 zero20 s)"
    by (simp add: hiddenReload_click_def Let_def m)
  show "loadAllData_multi zero20 page (Some c) ! 2 = hidden_request c (parseInt_10 zero20 s)"
    if "c \<noteq> []" for c
    using that by (simp add: loadAllData_multi_third m)
next
  fix s :: string
  assume d: "s \<noteq> [] \<and> (\<forall>c\<in>set s. is_digit c)"
  then show "parseInt_10 zero20 s = to_Number (math_int zero20 s)"
    by (simp add: parseInt_10_digits)
  show "parseInt_10 zero20 s = Num (int (digits_value s))" if "length s \<le> 15"
    using d that by (simp add: parseInt_10_small)
qed

text \<open>
  An empty field gives 30 minutes and the field \<open>45\<close> gives 45; the field
  \<open>9007199254740993\<close> gives the double 9007199254740992.
\<close>

theorem hidden_window_defaults_to_30_witness:
  "hiddenReload_click False fresh_page =
     \<lparr>path = ''/api/analysis/multi/hidden'',
      query = [(''case_id'', Encoded ''CASE-001''), (''minutes'', Number (Num 30))]\<rparr>
   \<and> loadAllData_multi False fresh_page (Some ''CASE-001'') ! 2 =
     \<lparr>path = ''/api/analysis/multi/hidden'',
      query = [(''case_id'', Encoded ''CASE-001''), (''minutes'', Number (Num 30))]\<rparr>
   \<and> hiddenReload_click False page_45 =
     \<lparr>path = ''/api/analysis/multi/hidden'',
      query = [(''case_id'', Encoded ''CASE-001''), (''minutes'', Number (Num 45))]\<rparr>
   \<and> parseInt_10 False ''9007199254740993'' = Num 9007199254740992"
proof -
  have a: "hidden_minutes fresh_page = Some []" by (simp add: fresh_page_def)
  have b: "hidden_minutes page_45 = Some ''45'' \<and> ''45'' \<noteq> []" by (simp add: page_45_def)
  have c: "''45'' \<noteq> [] \<and> (\<forall>c\<in>set ''45''. is_digit c)" by (simp add: is_digit_def)
  have c': "length ''45'' \<le> 15" by simp
  have d: "''CASE-001'' \<noteq> []" by simp
  have e: "''9007199254740993'' \<noteq> [] \<and> (\<forall>c\<in>set ''9007199254740993''. is_digit c)"
    by (simp add: is_digit_def)
  from hidden_window_defaults_to_30[of fresh_page False] a d
  have 1: "hiddenReload_click False fresh_page =
             hidden_request (current_case_id fresh_page) (Num 30)"
    and 2: "loadAllData_multi False fresh_page (Some ''CASE-001'') ! 2 =
              hidden_request ''CASE-001'' (Num 30)"
    by blast+
  from hidden_window_defaults_to_30[of page_45 False] b
  have 3: "hiddenReload_click False page_45 =
             hidden_request (current_case_id page_45) (parseInt_10 False ''45'')"
    by blast
  from hidden_window_defaults_to_30[of page_45 False] c c'
  have 4: "parseInt_10 False ''45'' = Num (int (digits_value ''45''))" by blast
  from hidden_window_defaults_to_30[of page_45 False] e
  have 5: "parseInt_10 False ''9007199254740993'' =
             to_Number (math_int False ''9007199254740993'')" by blast
  have 6: "to_Number (math_int False ''9007199254740993'') = Num 9007199254740992"
    by (simp only: math_int_2_53_plus_1 to_Number_2_53_plus_1)
  show ?thesis
    using 1 2 3 4 5 6
    by (simp add: hidden_request_def fresh_page_def page_45_def digits_value_def)
qed





text \<open>
  C8, as the code has it. When \<open>fetch\<close> yields a response, \<open>fetchJSON\<close> returns a value
  exactly when the response is ok and its body parses as JSON, and the value is the
  parsed body; for an ok response it settles as \<open>r.json()\<close> does, so a body that is no
  JSON makes it reject with the error of the parser; for a response that is not ok it
  throws an Error that carries the status text and returns no value.
\<close>

theorem fetchJSON_returns_iff_ok_and_parsed:
  assumes "fetch url = Inr r"
  shows "((\<exists>j. fetchJSON fetch url = Inr j) \<longleftrightarrow> ok r \<and> (\<exists>j. body_json r = Inr j))
       \<and> (ok r \<longrightarrow> fetchJSON fetch url = body_json r)
       \<and> (\<not> ok r \<longrightarrow> fetchJSON fetch url = Inl (Error (statusText r)))"
  using assms by (auto simp: fetchJSON_def)

text \<open>An ok response with a list is returned; a response that is not ok is thrown.\<close>

theorem fetchJSON_returns_iff_ok_and_parsed_witness:
  "fetchJSON list_fetch cases_request = Inr (JObj [(''success'', JBool True), (''data'', JArr [])])
   \<and> fetchJSON failed_fetch cases_request = Inl (Error ''Internal Server Error'')"
proof -
  have a: "list_fetch cases_request = Inr list_response" by (simp add: list_fetch_def)
  have b: "failed_fetch cases_request = Inr failed_response" by (simp add: failed_fetch_def)
  show ?thesis
    using fetchJSON_returns_iff_ok_and_parsed[of list_fetch cases_request list_response, OF a]
      fetchJSON_returns_iff_ok_and_parsed[of failed_fetch cases_request failed_response, OF b]
    by (simp add: list_response_def failed_response_def)
qed

text \<open>
  The response is ok, its body is a page of markup and no JSON: \<open>fetchJSON\<close> returns
  no parsed body, although the response is ok.
\<close>

theorem fetchJSON_ok_not_json_counterexample:
  "html_fetch cases_request = Inr html_response \<and> ok html_response
   \<and> fetchJSON html_fetch cases_request = Inl SyntaxError"
  by (simp add: fetchJSON_def html_fetch_def html_response_def)

section \<open>The upload page\<close>

subsection \<open>The invariant of a session\<close>

lemma set_remove_row: "set (remove_row filename rs) \<subseteq> set rs"
  by (induction rs) auto

lemma page_inv_new: "page_inv (new_UploadManager d)"
  by (simp add: page_inv_def new_UploadManager_def)

lemma page_inv_stage_file:
  assumes "page_inv um"
  shows "page_inv (stage_file um f)"
proof -
  have "x \<in> set (staging um)" if "x \<in> set (remove_row (file_name f) (staging um))" for x
    using that set_remove_row by blast
  then show ?thesis
    using assms
    by (auto simp: page_inv_def stage_file_def renderRow_def Let_def update_conv'
          distinct_update role_values_def unit_values_def)
qed

lemma page_inv_foldl_stage:
  "page_inv um \<Longrightarrow> page_inv (foldl stage_file um fs)"
  by (induction fs arbitrary: um) (simp_all add: page_inv_stage_file)

lemma page_inv_addFiles:
  assumes "page_inv um"
  shows "page_inv (addFiles um fs)"
proof -
  have "page_inv (if filesMap um = [] then um\<lparr>staging := []\<rparr> else um)"
    using assms by (simp add: page_inv_def)
  then have "page_inv (foldl stage_file (if filesMap um = [] then um\<lparr>staging := []\<rparr> else um) fs)"
    by (rule page_inv_foldl_stage)
  then show ?thesis
    by (simp add: addFiles_def Let_def page_inv_def)
qed

lemma page_inv_updateConfig:
  assumes "page_inv um"
    and "key = KType \<longrightarrow> val \<in> role_values"
    and "key = KUnit \<longrightarrow> val \<in> unit_values"
  shows "page_inv (updateConfig um filename key val)"
proof (cases "map_of (filesMap um) filename")
  case None
  then show ?thesis using assms by (simp add: updateConfig_def)
next
  case (Some config)
  then show ?thesis
    using assms
    by (cases key) (auto simp: page_inv_def updateConfig_def update_conv' distinct_update)
qed

lemma page_inv_remove:
  assumes "page_inv um"
  shows "page_inv (remove um filename)"
proof -
  have "x \<in> set (staging um)" if "x \<in> set (remove_row filename (staging um))" for x
    using that set_remove_row by blast
  then show ?thesis
    using assms
    by (auto simp: page_inv_def remove_def Let_def delete_conv' distinct_delete split: if_splits)
qed

lemma page_inv_step:
  assumes "page_inv um" and "offered um e"
  shows "page_inv (step um e)"
proof (cases e)
  case (ChooseFiles fs)
  then show ?thesis using assms by (simp add: page_inv_addFiles)
next
  case (PickType filename val)
  with assms obtain r where "r \<in> set (staging um)" and "val \<in> fst ` set (type_options r)"
    by auto
  moreover from this assms have "fst ` set (type_options r) \<subseteq> role_values"
    by (simp add: page_inv_def)
  ultimately have "val \<in> role_values" by blast
  with PickType assms show ?thesis by (simp add: page_inv_updateConfig)
next
  case (PickUnit filename val)
  with assms obtain r where "r \<in> set (staging um)" and "val \<in> fst ` set (unit_options r)"
    by auto
  moreover from this assms have "fst ` set (unit_options r) \<subseteq> unit_values"
    by (simp add: page_inv_def)
  ultimately have "val \<in> unit_values" by blast
  with PickUnit assms show ?thesis by (simp add: page_inv_updateConfig)
next
  case (ClickBin filename)
  then show ?thesis using assms by (simp add: page_inv_remove)
qed

lemma page_inv_run:
  "page_inv um \<Longrightarrow> session um es \<Longrightarrow> page_inv (run um es)"
  by (induction es arbitrary: um) (simp_all add: page_inv_step)

lemma page_inv_session:
  "session (new_UploadManager d) es \<Longrightarrow> page_inv (run (new_UploadManager d) es)"
  by (rule page_inv_run[OF page_inv_new])

subsection \<open>The posted form\<close>

lemma file_configs_map_of:
  assumes "distinct (map fst fm)" and "name \<noteq> ''__proto__''"
  shows "map_of (foldl (\<lambda>configs (n, cfg). object_set configs n (cfg_type cfg, cfg_unit cfg))
                   acc fm) name
         = (case map_of fm name of
              None \<Rightarrow> map_of acc name
            | Some cfg \<Rightarrow> Some (cfg_type cfg, cfg_unit cfg))"
  using assms
proof (induction fm arbitrary: acc)
  case Nil
  then show ?case by simp
next
  case (Cons p fm)
  obtain k c where p: "p = (k, c)" by (cases p)
  from Cons.prems p have d: "distinct (map fst fm)" and k: "k \<notin> fst ` set fm" by auto
  from k have kn: "map_of fm k = None" by (simp add: map_of_eq_None_iff)
  show ?case
    using Cons.IH[OF d Cons.prems(2), of "object_set acc k (cfg_type c, cfg_unit c)"] p kn
      Cons.prems(2)
    by (auto simp: object_set_def update_conv' split: option.splits)
qed

lemma file_configs_proto:
  "map_of (foldl (\<lambda>configs (n, cfg). object_set configs n (cfg_type cfg, cfg_unit cfg)) acc fm)
     ''__proto__'' = map_of acc ''__proto__''"
proof (induction fm arbitrary: acc)
  case Nil
  then show ?case by simp
next
  case (Cons p fm)
  obtain k c where p: "p = (k, c)" by (cases p)
  show ?case
    using Cons.IH[of "object_set acc k (cfg_type c, cfg_unit c)"] p
    by (simp add: object_set_def update_conv')
qed

lemma uploadAll_file_configs:
  assumes u: "uploadAll page um = (Posted form, um')"
  shows "file_configs form =
           foldl (\<lambda>configs (n, cfg). object_set configs n (cfg_type cfg, cfg_unit cfg))
             [] (filesMap um)"
  using u by (auto simp: uploadAll_def Let_def split: if_splits)

lemma unit_factor_values:
  "u \<in> unit_values \<Longrightarrow> unit_factor u \<in> {Some 1, Some (1 / 10), Some (1 / 100)}"
  by (auto simp: unit_values_def unit_factor_def)

lemma canonical_roles_set: "set canonical_roles = role_values"
  by (auto simp: canonical_roles_def role_values_def)

lemma canonical_roles_distinct: "distinct canonical_roles"
  by (simp add: canonical_roles_def paicha_renyuan_def shouzang_renyuan_def daoqie_renyuan_def)

subsection \<open>The defaults of a file that was just staged\<close>

lemma stage_file_same:
  "\<exists>cfg. map_of (filesMap (stage_file um f)) (file_name f) = Some cfg
         \<and> default_config (file_name f) cfg"
  by (simp add: stage_file_def renderRow_def Let_def update_conv' default_config_def)

lemma stage_file_other:
  "name \<noteq> file_name f \<Longrightarrow>
     map_of (filesMap (stage_file um f)) name = map_of (filesMap um) name"
  by (simp add: stage_file_def renderRow_def Let_def update_conv')

lemma stage_file_keeps_default:
  assumes "\<exists>cfg. map_of (filesMap um) name = Some cfg \<and> default_config name cfg"
  shows "\<exists>cfg. map_of (filesMap (stage_file um f)) name = Some cfg \<and> default_config name cfg"
proof (cases "name = file_name f")
  case True
  then show ?thesis using stage_file_same[of um f] by simp
next
  case False
  then show ?thesis using assms by (simp add: stage_file_other)
qed

lemma foldl_stage_default:
  assumes "f \<in> set fs \<or> (\<exists>cfg. map_of (filesMap um) (file_name f) = Some cfg
                               \<and> default_config (file_name f) cfg)"
  shows "\<exists>cfg. map_of (filesMap (foldl stage_file um fs)) (file_name f) = Some cfg
            \<and> default_config (file_name f) cfg"
  using assms
proof (induction fs arbitrary: um)
  case Nil
  then show ?case by simp
next
  case (Cons g fs)
  have "f \<in> set fs \<or> (\<exists>cfg. map_of (filesMap (stage_file um g)) (file_name f) = Some cfg
            \<and> default_config (file_name f) cfg)"
  proof (cases "f \<in> set fs")
    case True
    then show ?thesis by simp
  next
    case False
    with Cons.prems have "f = g \<or> (\<exists>cfg. map_of (filesMap um) (file_name f) = Some cfg
        \<and> default_config (file_name f) cfg)" by auto
    then show ?thesis
      using stage_file_same[of um g] stage_file_keeps_default[of um "file_name f" g] by blast
  qed
  from Cons.IH[OF this] show ?case by simp
qed

lemma addFiles_default:
  assumes "f \<in> set fs"
  shows "\<exists>cfg. map_of (filesMap (addFiles um fs)) (file_name f) = Some cfg
            \<and> default_config (file_name f) cfg"
  using foldl_stage_default[of f fs "if filesMap um = [] then um\<lparr>staging := []\<rparr> else um"] assms
  by (simp add: addFiles_def Let_def)

subsection \<open>A sample session\<close>

lemma case_page_trim:
  "trim (upload_case_name case_page) = ''Case A'' \<and> trim (upload_case_id case_page) = ''CASE-001''"
  unfolding case_page_def by code_simp

lemma staging_session_run:
  "run (new_UploadManager True) staging_session =
     \<lparr>filesMap =
        [(''bank.xlsx'', \<lparr>cfg_file = bank_xlsx, cfg_type = daoqie_renyuan, cfg_unit = ''jiao''\<rparr>),
         (''pay.TXT'', \<lparr>cfg_file = pay_TXT, cfg_type = paicha_renyuan, cfg_unit = ''fen''\<rparr>)],
      staging =
        [\<lparr>row_name = ''bank.xlsx'',
          type_options = [(paicha_renyuan, True), (shouzang_renyuan, False), (daoqie_renyuan, False)],
          unit_options = [(''yuan'', True), (''fen'', False), (''jiao'', False)]\<rparr>,
         \<lparr>row_name = ''pay.TXT'',
          type_options = [(paicha_renyuan, True), (shouzang_renyuan, False), (daoqie_renyuan, False)],
          unit_options = [(''yuan'', False), (''fen'', True), (''jiao'', False)]\<rparr>],
      start_disabled = False\<rparr>"
  by (simp add: staging_session_def new_UploadManager_def addFiles_def stage_file_def renderRow_def
        updateConfig_def bank_xlsx_def pay_TXT_def endsWith_def toLowerCase_def Let_def
        paicha_renyuan_def shouzang_renyuan_def daoqie_renyuan_def)

lemma staging_session_ok: "session (new_UploadManager True) staging_session"
  by (simp add: staging_session_def new_UploadManager_def addFiles_def stage_file_def renderRow_def
        updateConfig_def bank_xlsx_def pay_TXT_def endsWith_def toLowerCase_def Let_def inert_name_def
        paicha_renyuan_def shouzang_renyuan_def daoqie_renyuan_def)

text \<open>A file named \<open>__proto__\<close> is posted without an entry in \<open>file_configs\<close>.\<close>

lemma proto_name_is_not_carried:
  "inert_name (file_name proto_file)
   \<and> fst (uploadAll case_page (addFiles (new_UploadManager True) [proto_file]))
       = Posted \<lparr>case_name = ''Case A'', case_id = ''CASE-001'', files = [proto_file],
                 file_configs = []\<rparr>"
  using case_page_trim
  by (simp add: uploadAll_def addFiles_def new_UploadManager_def stage_file_def renderRow_def
        object_set_def Let_def proto_file_def inert_name_def)

lemma uploadAll_settle_keeps_files:
  "filesMap (snd (uploadAll_settle res um)) = filesMap um"
  by (simp add: uploadAll_settle_def split: sum.splits)

subsection \<open>Properties of the upload page\<close>

text \<open>
  C9. \<open>uploadAll\<close> posts a form only if the case name is not empty, the case id is not
  empty and a file is staged; precisely, it posts exactly when both fields are not empty
  after trimming and a file is staged. When the case name or the case id is empty or no
  file is staged, it alerts and returns with the page as it was, sending nothing. In no
  case does it change the staged files.
\<close>

theorem uploadAll_sends_only_when_ready:
  "(\<forall>form um'. uploadAll page um = (Posted form, um') \<longrightarrow>
      upload_case_name page \<noteq> [] \<and> upload_case_id page \<noteq> [] \<and> filesMap um \<noteq> [])
   \<and> (upload_case_name page = [] \<or> upload_case_id page = [] \<or> filesMap um = [] \<longrightarrow>
      (\<exists>a. uploadAll page um = (Alerted a, um)))
   \<and> ((\<exists>form um'. uploadAll page um = (Posted form, um')) \<longleftrightarrow>
        trim (upload_case_name page) \<noteq> [] \<and> trim (upload_case_id page) \<noteq> [] \<and> filesMap um \<noteq> [])
   \<and> filesMap (snd (uploadAll page um)) = filesMap um
   \<and> staging (snd (uploadAll page um)) = staging um"
proof -
  have n: "upload_case_name page = [] \<Longrightarrow> trim (upload_case_name page) = []"
    and i: "upload_case_id page = [] \<Longrightarrow> trim (upload_case_id page) = []"
    by (simp_all add: trim_Nil)
  show ?thesis
    using n i by (auto simp: uploadAll_def Let_def split: if_splits)
qed

text \<open>
  With two files staged, an empty case name alerts and leaves the page as it was; with
  the case name and the case id filled in, the form is posted.
\<close>

theorem uploadAll_sends_only_when_ready_witness:
  "upload_case_name blank_page = []
   \<and> uploadAll blank_page (run (new_UploadManager True) staging_session)
       = (Alerted FillCaseNameAndId, run (new_UploadManager True) staging_session)
   \<and> uploadAll case_page (new_UploadManager True)
       = (Alerted AddAtLeastOneFile, new_UploadManager True)
   \<and> (\<exists>form um'. uploadAll case_page (run (new_UploadManager True) staging_session)
                    = (Posted form, um'))
   \<and> upload_case_name case_page \<noteq> [] \<and> upload_case_id case_page \<noteq> []
   \<and> filesMap (run (new_UploadManager True) staging_session) \<noteq> []"
proof -
  let ?um = "run (new_UploadManager True) staging_session"
  have b: "upload_case_name blank_page = []" by (simp add: blank_page_def)
  with uploadAll_sends_only_when_ready[of blank_page ?um]
  obtain a where a: "uploadAll blank_page ?um = (Alerted a, ?um)" by blast
  have a': "a = FillCaseNameAndId"
    using a b by (simp add: uploadAll_def Let_def trim_Nil)
  have e: "filesMap (new_UploadManager True) = []" by (simp add: new_UploadManager_def)
  with uploadAll_sends_only_when_ready[of case_page "new_UploadManager True"]
  obtain a2 where a2: "uploadAll case_page (new_UploadManager True) = (Alerted a2, new_UploadManager True)"
    by blast
  have a2': "a2 = AddAtLeastOneFile"
    using a2 e case_page_trim by (simp add: uploadAll_def Let_def)
  have f: "filesMap ?um \<noteq> []" by (simp add: staging_session_run)
  with uploadAll_sends_only_when_ready[of case_page ?um] case_page_trim
  obtain form um' where p: "uploadAll case_page ?um = (Posted form, um')" by auto
  with uploadAll_sends_only_when_ready[of case_page ?um]
  have q: "upload_case_name case_page \<noteq> [] \<and> upload_case_id case_page \<noteq> []" by blast
  show ?thesis using b a a' a2 a2' p q f by blast
qed

text \<open>
  C1, as the code has it. In a session on the upload page (files whose names hold no
  quote, backslash, ampersand, angle bracket or line break), the unit of every staged
  file is the one held in the configuration of that file and is one of \<open>yuan\<close>, \<open>jiao\<close>
  and \<open>fen\<close>, whose factors are 1, 1/10 and 1/100. The posted form carries under the
  name of the file the role and the unit of that configuration, for every name other than
  \<open>__proto__\<close>. A file that is staged starts with the unit \<open>fen\<close> when its name, put in
  lower case, ends in \<open>.txt\<close>, and with \<open>yuan\<close> otherwise.
\<close>

theorem staged_unit_is_per_file:
  assumes s: "session (new_UploadManager d) es" and um: "um = run (new_UploadManager d) es"
  shows "(\<forall>name cfg. map_of (filesMap um) name = Some cfg \<longrightarrow>
            cfg_unit cfg \<in> {''yuan'', ''jiao'', ''fen''} \<and>
            unit_factor (cfg_unit cfg) \<in> {Some 1, Some (1 / 10), Some (1 / 100)} \<and>
            (\<forall>form um'. uploadAll page um = (Posted form, um') \<and> name \<noteq> ''__proto__'' \<longrightarrow>
               map_of (file_configs form) name = Some (cfg_type cfg, cfg_unit cfg)))
       \<and> (\<forall>fs. \<forall>f\<in>set fs. \<exists>cfg.
            map_of (filesMap (addFiles um fs)) (file_name f) = Some cfg \<and>
            cfg_unit cfg = (if endsWith (toLowerCase (file_name f)) ''.txt''
                            then ''fen'' else ''yuan''))"
proof (intro conjI allI impI ballI)
  from s um have inv: "page_inv um" by (simp add: page_inv_session)
  fix name cfg
  assume m: "map_of (filesMap um) name = Some cfg"
  with inv have u: "cfg_unit cfg \<in> unit_values" by (simp add: page_inv_def)
  then show "cfg_unit cfg \<in> {''yuan'', ''jiao'', ''fen''}" by (auto simp: unit_values_def)
  from u show "unit_factor (cfg_unit cfg) \<in> {Some 1, Some (1 / 10), Some (1 / 100)}"
    by (rule unit_factor_values)
  fix form um'
  assume p: "uploadAll page um = (Posted form, um') \<and> name \<noteq> ''__proto__''"
  from inv have d: "distinct (map fst (filesMap um))" by (simp add: page_inv_def)
  from p uploadAll_file_configs[of page um form um'] have "file_configs form =
      foldl (\<lambda>configs (n, cfg). object_set configs n (cfg_type cfg, cfg_unit cfg)) [] (filesMap um)"
    by blast
  with file_configs_map_of[OF d, of name "[]"] p m
  show "map_of (file_configs form) name = Some (cfg_type cfg, cfg_unit cfg)" by simp
next
  fix fs :: "File list" and f
  assume "f \<in> set fs"
  from addFiles_default[OF this, of um]
  show "\<exists>cfg. map_of (filesMap (addFiles um fs)) (file_name f) = Some cfg \<and>
          cfg_unit cfg = (if endsWith (toLowerCase (file_name f)) ''.txt'' then ''fen'' else ''yuan'')"
    by (auto simp: default_config_def)
qed

text \<open>
  Two files are chosen and the unit of one is set to \<open>jiao\<close>: the form carries \<open>jiao\<close> for
  it and the default \<open>fen\<close> for \<open>pay.TXT\<close>.
\<close>

theorem staged_unit_is_per_file_witness:
  "session (new_UploadManager True) staging_session
   \<and> (\<exists>form um'. uploadAll case_page (run (new_UploadManager True) staging_session) = (Posted form, um')
         \<and> map_of (file_configs form) ''bank.xlsx'' = Some (daoqie_renyuan, ''jiao'')
         \<and> map_of (file_configs form) ''pay.TXT'' = Some (paicha_renyuan, ''fen''))
   \<and> unit_factor ''jiao'' = Some (1 / 10) \<and> unit_factor ''fen'' = Some (1 / 100)
   \<and> (\<exists>cfg. map_of (filesMap (addFiles (run (new_UploadManager True) staging_session) [pay_TXT]))
                ''pay.TXT'' = Some cfg \<and> cfg_unit cfg = ''fen'')"
proof -
  let ?um = "run (new_UploadManager True) staging_session"
  note inst = staged_unit_is_per_file[OF staging_session_ok refl, of case_page]
  have b: "map_of (filesMap ?um) ''bank.xlsx''
             = Some \<lparr>cfg_file = bank_xlsx, cfg_type = daoqie_renyuan, cfg_unit = ''jiao''\<rparr>"
    and p: "map_of (filesMap ?um) ''pay.TXT''
             = Some \<lparr>cfg_file = pay_TXT, cfg_type = paicha_renyuan, cfg_unit = ''fen''\<rparr>"
    by (simp_all add: staging_session_run)
  obtain form um' where u: "uploadAll case_page ?um = (Posted form, um')"
    using case_page_trim by (simp add: uploadAll_def staging_session_run Let_def)
  from inst b u have 1: "map_of (file_configs form) ''bank.xlsx'' = Some (daoqie_renyuan, ''jiao'')"
    by fastforce
  from inst p u have 2: "map_of (file_configs form) ''pay.TXT'' = Some (paicha_renyuan, ''fen'')"
    by fastforce
  have "pay_TXT \<in> set [pay_TXT]" by simp
  with inst obtain cfg
    where 3: "map_of (filesMap (addFiles ?um [pay_TXT])) (file_name pay_TXT) = Some cfg"
      and 4: "cfg_unit cfg = (if endsWith (toLowerCase (file_name pay_TXT)) ''.txt''
                              then ''fen'' else ''yuan'')"
    by blast
  from 4 have 5: "cfg_unit cfg = ''fen''"
    by (simp add: pay_TXT_def endsWith_def toLowerCase_def)
  show ?thesis
    using staging_session_ok u 1 2 3 5 by (auto simp: unit_factor_def pay_TXT_def)
qed

text \<open>
  The name \<open>pay.TXT\<close> does not end in \<open>.txt\<close>, and the file starts with the unit \<open>fen\<close>,
  not with \<open>yuan\<close>.
\<close>

theorem txt_suffix_any_case_counterexample:
  "\<not> endsWith (file_name pay_TXT) ''.txt''
   \<and> map_of (filesMap (addFiles (new_UploadManager True) [pay_TXT])) (file_name pay_TXT)
       = Some \<lparr>cfg_file = pay_TXT, cfg_type = paicha_renyuan, cfg_unit = ''fen''\<rparr>"
  by (simp add: endsWith_def pay_TXT_def addFiles_def new_UploadManager_def stage_file_def
        renderRow_def toLowerCase_def Let_def)

subsection \<open>Roles on the upload page\<close>

text \<open>
  In a session whose file names are inert, every staged role and every role in the
  posted form is one of the three option values, and a file that is staged starts as a
  screening subject.
\<close>

lemma staged_roles_in_session:
  assumes s: "session (new_UploadManager d) es" and um: "um = run (new_UploadManager d) es"
  shows "(\<forall>name cfg. map_of (filesMap um) name = Some cfg \<longrightarrow> cfg_type cfg \<in> set canonical_roles)
       \<and> (\<forall>form um' name t u.
            uploadAll page um = (Posted form, um') \<and> map_of (file_configs form) name = Some (t, u) \<longrightarrow>
            t \<in> set canonical_roles)
       \<and> (\<forall>fs. \<forall>f\<in>set fs. \<exists>cfg.
            map_of (filesMap (addFiles um fs)) (file_name f) = Some cfg \<and>
            cfg_type cfg = paicha_renyuan)"
proof -
  from s um have inv: "page_inv um" by (simp add: page_inv_session)
  have 4: "\<forall>name cfg. map_of (filesMap um) name = Some cfg \<longrightarrow> cfg_type cfg \<in> set canonical_roles"
    using inv by (simp add: page_inv_def canonical_roles_set)
  have 5: "t \<in> set canonical_roles"
    if u: "uploadAll page um = (Posted form, um')"
      and m: "map_of (file_configs form) name = Some (t, u)"
    for form um' name t u
  proof -
    from inv have d: "distinct (map fst (filesMap um))" by (simp add: page_inv_def)
    have fc: "file_configs form =
      foldl (\<lambda>configs (n, cfg). object_set configs n (cfg_type cfg, cfg_unit cfg)) [] (filesMap um)"
      using u by (rule uploadAll_file_configs)
    show ?thesis
    proof (cases "name = ''__proto__''")
      case True
      with m fc file_configs_proto[of "[]" "filesMap um"] show ?thesis by simp
    next
      case False
      from file_configs_map_of[OF d False, of "[]"] m fc
      obtain cfg where "map_of (filesMap um) name = Some cfg" and "t = cfg_type cfg"
        by (auto split: option.splits)
      with 4 show ?thesis by blast
    qed
  qed
  have 6: "\<forall>fs. \<forall>f\<in>set fs. \<exists>cfg.
            map_of (filesMap (addFiles um fs)) (file_name f) = Some cfg \<and>
            cfg_type cfg = paicha_renyuan"
  proof (intro allI ballI)
    fix fs :: "File list" and f
    assume "f \<in> set fs"
    from addFiles_default[OF this, of um]
    show "\<exists>cfg. map_of (filesMap (addFiles um fs)) (file_name f) = Some cfg \<and>
            cfg_type cfg = paicha_renyuan"
      by (auto simp: default_config_def)
  qed
  from 4 5 6 show ?thesis by blast
qed

text \<open>
  The model of ingestion rejects a batch with any other role and leaves the store as
  it was.
\<close>

lemma ingest_rejects_other_roles:
  "declared_role b \<notin> set canonical_roles \<Longrightarrow>
     ingest normalise store b = (Inl InvalidIdentity, store)"
  by (simp add: ingest_def)

lemma ingest_rejects_boss_batch:
  "ingest keep_100 [200] boss_batch = (Inl InvalidIdentity, [200])"
  by (rule ingest_rejects_other_roles)
     (simp add: boss_batch_def canonical_roles_def paicha_renyuan_def shouzang_renyuan_def
        daoqie_renyuan_def)

lemma crafted_name_not_inert: "\<not> inert_name crafted_name"
  by (simp add: inert_name_def crafted_name_def)

text \<open>
  C2. The upload page can produce a role that is none of the three. Two files are
  staged, \<open>a.csv\<close> and a file whose name closes the quote of the handler text. The
  handler that \<open>renderRow\<close> writes for the role select of the second row then reads
  \<open>uploadManager.updateConfig('a.csv','type','boss')+(...)\<close>: a change of that select
  calls \<open>updateConfig\<close> for \<open>a.csv\<close> with the role \<open>boss\<close>. After that call \<open>uploadAll\<close>
  posts \<open>boss\<close> as the role of \<open>a.csv\<close>, and \<open>boss\<close> is not a canonical role.
\<close>

theorem crafted_name_posts_boss:
  "onchange_type crafted_name =
     ''uploadManager.updateConfig('a.csv','type','boss')+('' @ [CHR 0x27, CHR 0x27] @
     '', 'type', this.value)''
   \<and> map_of (filesMap two_staged) ''a.csv''
       = Some \<lparr>cfg_file = a_csv, cfg_type = paicha_renyuan, cfg_unit = ''yuan''\<rparr>
   \<and> map_of (filesMap (updateConfig two_staged ''a.csv'' KType ''boss'')) ''a.csv''
       = Some \<lparr>cfg_file = a_csv, cfg_type = ''boss'', cfg_unit = ''yuan''\<rparr>
   \<and> fst (uploadAll case_page (updateConfig two_staged ''a.csv'' KType ''boss''))
       = Posted \<lparr>case_name = ''Case A'', case_id = ''CASE-001'',
                 files = [a_csv, crafted_file],
                 file_configs = [(''a.csv'', ''boss'', ''yuan''),
                                 (crafted_name, paicha_renyuan, ''yuan'')]\<rparr>
   \<and> ''boss'' \<notin> set canonical_roles"
proof -
  have t: "onchange_type crafted_name =
     ''uploadManager.updateConfig('a.csv','type','boss')+('' @ [CHR 0x27, CHR 0x27] @
     '', 'type', this.value)''"
    by (simp add: onchange_type_def crafted_name_def)
  have n: "crafted_name \<noteq> ''a.csv''" "crafted_name \<noteq> ''__proto__''"
    by (simp_all add: crafted_name_def)
  have st: "filesMap two_staged =
      [(''a.csv'', \<lparr>cfg_file = a_csv, cfg_type = paicha_renyuan, cfg_unit = ''yuan''\<rparr>),
       (crafted_name, \<lparr>cfg_file = crafted_file, cfg_type = paicha_renyuan, cfg_unit = ''yuan''\<rparr>)]"
    using n
    by (simp add: two_staged_def addFiles_def new_UploadManager_def stage_file_def renderRow_def
          a_csv_def crafted_file_def Let_def endsWith_def toLowerCase_def crafted_name_def)
  have up: "filesMap (updateConfig two_staged ''a.csv'' KType ''boss'') =
      [(''a.csv'', \<lparr>cfg_file = a_csv, cfg_type = ''boss'', cfg_unit = ''yuan''\<rparr>),
       (crafted_name, \<lparr>cfg_file = crafted_file, cfg_type = paicha_renyuan, cfg_unit = ''yuan''\<rparr>)]"
    by (simp add: updateConfig_def st)
  have po: "fst (uploadAll case_page (updateConfig two_staged ''a.csv'' KType ''boss''))
       = Posted \<lparr>case_name = ''Case A'', case_id = ''CASE-001'',
                 files = [a_csv, crafted_file],
                 file_configs = [(''a.csv'', ''boss'', ''yuan''),
                                 (crafted_name, paicha_renyuan, ''yuan'')]\<rparr>"
    using case_page_trim n by (simp add: uploadAll_def Let_def up object_set_def)
  have nb: "''boss'' \<notin> set canonical_roles"
    by (simp add: canonical_roles_def paicha_renyuan_def shouzang_renyuan_def daoqie_renyuan_def)
  from t st up po nb show ?thesis by simp
qed


end
